theory Spec2Isabelle
  imports Complex_Main
begin

section \<open>ChatRoom.jsx: the connection lifecycle of the chat component\<close>

text \<open>
  The component \<^verbatim>\<open>ChatRoom\<close> of \<^verbatim>\<open>src/components/ChatRoom.jsx\<close> keeps one WebSocket,
  reconnects with exponential backoff and jitter when it closes, filters inbound frames and
  sends the text of the input box. The model is a state record holding the React state and
  refs of the component together with the part of the browser they act on (the ready state
  of every socket created, the pending timers, the frames handed to \<^verbatim>\<open>ws.send\<close>), and one
  function per handler of the source. State setters are applied in program order; an
  updater function passed to a setter runs once, on the latest value.
\<close>

subsection \<open>Values\<close>

text \<open>
  A value produced by \<^verbatim>\<open>JSON.parse\<close>. The members of \<open>JObject\<close> are the own properties of
  the parsed object, each key once (\<^verbatim>\<open>JSON.parse\<close> keeps the last of duplicate keys).
  \<open>None\<close> of type \<open>json option\<close> stands for \<^verbatim>\<open>undefined\<close>.
\<close>

datatype json =
    JNull
  | JBool bool
  | JNumber real
  | JString string
  | JArray "json list"
  | JObject "(string \<times> json) list"

text \<open>Truthiness of a parsed value, as \<^verbatim>\<open>data && ...\<close> tests it.\<close>

fun truthy :: "json \<Rightarrow> bool" where
  "truthy JNull = False"
| "truthy (JBool b) = b"
| "truthy (JNumber x) = (x \<noteq> 0)"
| "truthy (JString t) = (t \<noteq> [])"
| "truthy (JArray xs) = True"
| "truthy (JObject kvs) = True"

text \<open>
  Reading the property \<^verbatim>\<open>name\<close> of a truthy parsed value: an object yields its member or
  \<^verbatim>\<open>undefined\<close>; a primitive or an array has no property called \<^verbatim>\<open>type\<close>.
\<close>

fun get_prop :: "json \<Rightarrow> string \<Rightarrow> json option" where
  "get_prop (JObject kvs) name = map_of kvs name"
| "get_prop v name = None"

subsection \<open>The state of the component and of its environment\<close>

text \<open>
  \<open>wsRef\<close> and \<open>retryTimeoutRef\<close> hold a socket and a timer id, or \<^verbatim>\<open>null\<close> (\<open>None\<close>).
  Sockets are numbered in creation order; \<open>readyState\<close> is 0 (CONNECTING), 1 (OPEN),
  2 (CLOSING) or 3 (CLOSED). \<open>timers\<close> are the timeouts that are set and have neither fired
  nor been cleared, each with its delay in milliseconds; their callback is always
  \<^verbatim>\<open>connect\<close>. \<open>ws_calls\<close> logs the URL of every \<^verbatim>\<open>new WebSocket(url)\<close>, \<open>sent\<close> the value
  serialised by every \<^verbatim>\<open>ws.send(JSON.stringify(v))\<close> with the socket it went to.
\<close>

record state =
  messages :: "json list"
  input :: string
  status :: string
  attempt :: nat
  wsRef :: "nat option"
  retryTimeoutRef :: "nat option"
  manualCloseRef :: bool
  wsUrl :: string
  readyState :: "nat \<Rightarrow> nat"
  next_ws :: nat
  ws_calls :: "string list"
  sent :: "(nat \<times> json) list"
  timers :: "(nat \<times> real) list"
  next_timer :: nat

subsection \<open>Endpoint resolution (lines 3 and 16-24)\<close>

text \<open>\<^verbatim>\<open>import.meta.env.VITE_BACKEND_URL || ""\<close>: an unset or empty variable gives \<^verbatim>\<open>""\<close>.\<close>

definition BACKEND_URL :: "string option \<Rightarrow> string" where
  "BACKEND_URL env = (case env of None \<Rightarrow> [] | Some v \<Rightarrow> if v = [] then [] else v)"

text \<open>\<^verbatim>\<open>x.replace(/\/$/, "")\<close>: one slash at the very end of the string is removed.\<close>

definition strip_slash :: "string \<Rightarrow> string" where
  "strip_slash x = (if x \<noteq> [] \<and> last x = CHR ''/'' then butlast x else x)"

text \<open>\<^verbatim>\<open>x.replace(/^http/, "ws")\<close>: the four characters \<^verbatim>\<open>http\<close> at the start become \<^verbatim>\<open>ws\<close>.\<close>

definition http_to_ws :: "string \<Rightarrow> string" where
  "http_to_ws x = (if take 4 x = ''http'' then ''ws'' @ drop 4 x else x)"

definition compute_wsUrl :: "string \<Rightarrow> string \<Rightarrow> string" where
  "compute_wsUrl backend origin =
     (let base = strip_slash backend;
          base = (if base = [] then http_to_ws origin else http_to_ws base)
      in base @ ''/ws'')"

subsection \<open>Timers and sockets of the browser\<close>

text \<open>\<^verbatim>\<open>setTimeout\<close> returns a fresh id, greater than zero, and the timer is pending.\<close>

definition setTimeout :: "real \<Rightarrow> state \<Rightarrow> nat \<times> state" where
  "setTimeout delay s =
     (next_timer s,
      s\<lparr>timers := timers s @ [(next_timer s, delay)], next_timer := next_timer s + 1\<rparr>)"

text \<open>\<^verbatim>\<open>clearTimeout\<close> removes the timer with that id if it is pending, and does nothing otherwise.\<close>

definition clearTimeout :: "nat \<Rightarrow> state \<Rightarrow> state" where
  "clearTimeout t s = s\<lparr>timers := filter (\<lambda>p. fst p \<noteq> t) (timers s)\<rparr>"

datatype exn = DOMException

text \<open>
  \<^verbatim>\<open>new WebSocket(url)\<close> either throws (whether it does is the environment's choice, the
  flag \<open>throws\<close>) or returns a new socket in state CONNECTING.
\<close>

definition new_WebSocket :: "bool \<Rightarrow> string \<Rightarrow> state \<Rightarrow> exn + (nat \<times> state)" where
  "new_WebSocket throws url s =
     (let s1 = s\<lparr>ws_calls := ws_calls s @ [url]\<rparr>
      in if throws then Inl DOMException
         else Inr (next_ws s1,
                   s1\<lparr>readyState := (readyState s1)(next_ws s1 := 0), next_ws := next_ws s1 + 1\<rparr>))"

text \<open>\<^verbatim>\<open>ws.close()\<close> on an open socket starts the closing handshake.\<close>

definition ws_close :: "nat \<Rightarrow> state \<Rightarrow> state" where
  "ws_close ws s = s\<lparr>readyState := (readyState s)(ws := 2)\<rparr>"

subsection \<open>The retry delay (lines 56-58)\<close>

definition baseDelay :: "nat \<Rightarrow> real" where
  "baseDelay prev = min 10000 (500 * 2 ^ prev)"

text \<open>
  \<open>rnd\<close> is the value returned by \<^verbatim>\<open>Math.random()\<close>, a number in \<open>[0, 1)\<close>. \<open>jitter\<close> and
  \<open>delay\<close> take product and sum over the reals; \<open>jitter64\<close> and \<open>delay64\<close> below round them
  as the binary64 arithmetic of the source does.
\<close>

definition jitter :: "real \<Rightarrow> real" where
  "jitter rnd = rnd * 300"

definition delay :: "nat \<Rightarrow> real \<Rightarrow> real" where
  "delay prev rnd = max 300 (baseDelay prev + jitter rnd)"


subsection \<open>The retry delay in binary64 arithmetic\<close>

text \<open>
  The numbers of the source are binary64 floating-point numbers. \<open>fl\<close> rounds a real to
  the nearest binary64 number, ties to the even significand: the significand has 53 bits,
  the exponent of a normal number is at least \<open>-1022\<close> and smaller numbers keep the spacing
  \<open>2^-1074\<close>. Overflow is left out: it needs a magnitude of \<open>2^1024\<close>, and the products and
  sums below stay under \<open>2^14\<close>.
\<close>

definition round_even :: "real \<Rightarrow> int" where
  "round_even y =
     (let f = \<lfloor>y\<rfloor>
      in if y - of_int f < 1 / 2 then f
         else if 1 / 2 < y - of_int f then f + 1
         else if even f then f else f + 1)"

definition b64_exponent :: "real \<Rightarrow> int" where
  "b64_exponent x = max (- 1022) \<lfloor>log 2 \<bar>x\<bar>\<rfloor>"

definition b64_ulp :: "real \<Rightarrow> real" where
  "b64_ulp x = 2 powr (of_int (b64_exponent x) - 52)"

definition fl :: "real \<Rightarrow> real" where
  "fl x = (if x = 0 then 0 else of_int (round_even (x / b64_ulp x)) * b64_ulp x)"

text \<open>
  The largest binary64 number below 1, the largest value \<^verbatim>\<open>Math.random()\<close> can return.
\<close>

definition rnd_max :: real where
  "rnd_max = 1 - 1 / 2 ^ 53"

text \<open>
  Lines 56-58 as the source computes them. \<^verbatim>\<open>Math.random() * 300\<close> and the sum
  \<^verbatim>\<open>baseDelay + jitter\<close> are rounded. \<open>baseDelay\<close> needs no rounding: \<^verbatim>\<open>Math.pow(2, prev)\<close> is
  exact or infinite, and so is its product with 500, so that \<^verbatim>\<open>Math.min(10000, ...)\<close> is
  the real minimum. \<open>jitter\<close> and \<open>delay\<close> above are the same computation without the two
  roundings; the two delays differ by at most \<open>2^-39\<close> ms (lemma \<open>delay64_close\<close>).
\<close>

definition jitter64 :: "real \<Rightarrow> real" where
  "jitter64 rnd = fl (rnd * 300)"

definition delay64 :: "nat \<Rightarrow> real \<Rightarrow> real" where
  "delay64 prev rnd = max 300 (fl (baseDelay prev + jitter64 rnd))"

subsection \<open>The handlers of a socket (lines 31-63)\<close>

definition onopen :: "state \<Rightarrow> state" where
  "onopen s = s\<lparr>status := ''connected'', attempt := 0\<rparr>"

text \<open>
  \<open>parsed\<close> is the outcome of \<^verbatim>\<open>JSON.parse(evt.data)\<close>: \<open>None\<close> when it throws (text that is
  not JSON, or a binary frame, whose conversion to a string is not JSON), which the empty
  \<^verbatim>\<open>catch\<close> swallows.
\<close>

definition onmessage :: "json option \<Rightarrow> state \<Rightarrow> state" where
  "onmessage parsed s =
     (case parsed of
        None \<Rightarrow> s
      | Some data \<Rightarrow>
          if truthy data \<and>
             (get_prop data ''type'' = Some (JString ''message'') \<or>
              get_prop data ''type'' = Some (JString ''system''))
          then s\<lparr>messages := messages s @ [data]\<rparr>
          else s)"

definition onerror :: "state \<Rightarrow> state" where
  "onerror s = s\<lparr>status := ''error''\<rparr>"

definition onclose :: "real \<Rightarrow> state \<Rightarrow> state" where
  "onclose rnd s =
     (let s1 = s\<lparr>wsRef := None\<rparr>
      in if manualCloseRef s1 then s1
         else
           let s2 = s1\<lparr>status := ''disconnected''\<rparr>;
               prev = attempt s2;
               next = prev + 1;
               d = delay prev rnd;
               s3 = (case retryTimeoutRef s2 of
                       None \<Rightarrow> s2
                     | Some t \<Rightarrow> if t = 0 then s2 else clearTimeout t s2);
               (t', s4) = setTimeout d s3
           in s4\<lparr>retryTimeoutRef := Some t', attempt := next\<rparr>)"

subsection \<open>connect (lines 26-71), the effect and its cleanup (lines 73-86), send (lines 106-112)\<close>

definition connect :: "bool \<Rightarrow> state \<Rightarrow> state" where
  "connect throws s =
     (case new_WebSocket throws (wsUrl s) s of
        Inr (ws, s1) \<Rightarrow> s1\<lparr>wsRef := Some ws\<rparr>
      | Inl e \<Rightarrow>
          let s1 = s\<lparr>ws_calls := ws_calls s @ [wsUrl s], status := ''error''\<rparr>;
              d = 1000;
              s2 = (case retryTimeoutRef s1 of
                      None \<Rightarrow> s1
                    | Some t \<Rightarrow> if t = 0 then s1 else clearTimeout t s1);
              (t', s3) = setTimeout d s2
          in s3\<lparr>retryTimeoutRef := Some t'\<rparr>)"

definition mount :: "bool \<Rightarrow> state \<Rightarrow> state" where
  "mount throws s = connect throws (s\<lparr>manualCloseRef := False, status := ''connecting''\<rparr>)"

definition cleanup :: "state \<Rightarrow> state" where
  "cleanup s =
     (let s1 = s\<lparr>manualCloseRef := True\<rparr>;
          s2 = (case retryTimeoutRef s1 of
                  None \<Rightarrow> s1
                | Some t \<Rightarrow> if t = 0 then s1 else clearTimeout t s1)
      in case wsRef s2 of
           None \<Rightarrow> s2
         | Some ws \<Rightarrow> if readyState s2 ws = 1 then ws_close ws s2 else s2)"

text \<open>
  \<^verbatim>\<open>String.prototype.trim\<close> on a string of code units below 256: the white space there is
  tab, line feed, vertical tab, form feed, carriage return, space and no-break space.
\<close>

definition is_space :: "char \<Rightarrow> bool" where
  "is_space c = (c \<in> {CHR 0x09, CHR 0x0A, CHR 0x0B, CHR 0x0C, CHR 0x0D, CHR '' '', CHR 0xA0})"

definition trim :: "string \<Rightarrow> string" where
  "trim x = rev (dropWhile is_space (rev (dropWhile is_space x)))"

text \<open>
  \<^verbatim>\<open>send\<close> has no \<^verbatim>\<open>return\<close> with a value: the first component, its result, is
  \<^verbatim>\<open>undefined\<close> on both paths.
\<close>

definition send :: "state \<Rightarrow> json option \<times> state" where
  "send s =
     (let text = trim (input s)
      in case wsRef s of
           None \<Rightarrow> (None, s)
         | Some ws \<Rightarrow>
             if text = [] \<or> readyState s ws \<noteq> 1 then (None, s)
             else (None,
                   s\<lparr>sent := sent s @ [(ws, JObject [(''type'', JString ''message''),
                                                      (''text'', JString text)])],
                     input := []\<rparr>))"

subsection \<open>Events\<close>

text \<open>
  What can happen to the component: the effect runs (\<open>Mount\<close>) or is cleaned up, a pending
  timer fires and calls \<^verbatim>\<open>connect\<close>, a socket reports open, message, error or close, the
  user edits the input box or sends. The browser sets a socket's ready state to OPEN before
  its open event and to CLOSED before its close event. The handlers of the source never
  look at the socket that fired them, so the socket only matters for that ready state.
  The component stays mounted: React runs the cleanup of an effect at unmount and also
  before it runs the effect again (as it does once right after the first run in strict
  mode), and the handlers call the state setters in either case. What React does with the
  calls of the setters of a component that is unmounted is not part of the model.
\<close>

datatype event =
    Mount bool
  | Cleanup
  | TimerFire nat bool
  | WsOpen nat
  | WsMessage nat "json option"
  | WsError nat
  | WsClose nat real
  | SetInput string
  | Send

fun step :: "event \<Rightarrow> state \<Rightarrow> state" where
  "step (Mount throws) s = mount throws s"
| "step Cleanup s = cleanup s"
| "step (TimerFire t throws) s =
     (if t \<in> fst ` set (timers s) then connect throws (clearTimeout t s) else s)"
| "step (WsOpen ws) s = onopen (s\<lparr>readyState := (readyState s)(ws := 1)\<rparr>)"
| "step (WsMessage ws parsed) s = onmessage parsed s"
| "step (WsError ws) s = onerror s"
| "step (WsClose ws rnd) s = onclose rnd (s\<lparr>readyState := (readyState s)(ws := 3)\<rparr>)"
| "step (SetInput x) s = s\<lparr>input := x\<rparr>"
| "step Send s = snd (send s)"

definition run :: "event list \<Rightarrow> state \<Rightarrow> state" where
  "run evs s = fold step evs s"

text \<open>
  The component before its first effect: the initial values of \<^verbatim>\<open>useState\<close> and
  \<^verbatim>\<open>useRef\<close>, the URL computed by \<^verbatim>\<open>useMemo\<close>, no socket and no timer.
\<close>

definition init :: "string option \<Rightarrow> string \<Rightarrow> state" where
  "init env origin =
     \<lparr>messages = [], input = [], status = ''connecting'', attempt = 0, wsRef = None,
      retryTimeoutRef = None, manualCloseRef = False,
      wsUrl = compute_wsUrl (BACKEND_URL env) origin,
      readyState = (\<lambda>ws. 3), next_ws = 0, ws_calls = [], sent = [], timers = [],
      next_timer = 1\<rparr>"

text \<open>
  The timer invariant: timer ids are positive, at most one timer is pending, and a pending
  timer is the one \<open>retryTimeoutRef\<close> holds.
\<close>

definition timer_inv :: "state \<Rightarrow> bool" where
  "timer_inv s =
     (0 < next_timer s \<and> length (timers s) \<le> 1 \<and>
      list_all (\<lambda>p. retryTimeoutRef s = Some (fst p) \<and> 0 < fst p) (timers s))"

subsection \<open>Notions of the specification\<close>

text \<open>
  The kind discriminator of a parsed frame, in the specification's words: the member
  \<^verbatim>\<open>type\<close> of an object when it is a string; a frame without it has no kind.
\<close>

fun kind :: "json \<Rightarrow> string option" where
  "kind (JObject kvs) = (case map_of kvs ''type'' of Some (JString k) \<Rightarrow> Some k | _ \<Rightarrow> None)"
| "kind v = None"

text \<open>
  The admission rule of the specification: the payload deserialises and its kind is one of
  the two accepted kinds.
\<close>

definition spec_admit :: "json option \<Rightarrow> bool" where
  "spec_admit parsed =
     (case parsed of
        None \<Rightarrow> False
      | Some data \<Rightarrow> kind data = Some ''message'' \<or> kind data = Some ''system'')"

text \<open>The body of a frame is text: its member \<^verbatim>\<open>text\<close> is a string.\<close>

fun text_body :: "json \<Rightarrow> bool" where
  "text_body (JObject kvs) = (case map_of kvs ''text'' of Some (JString x) \<Rightarrow> True | _ \<Rightarrow> False)"
| "text_body v = False"

text \<open>The frames of a sequence of payloads that the admission rule accepts, in order.\<close>

definition admitted_frames :: "json option list \<Rightarrow> json list" where
  "admitted_frames ps = List.map_filter (\<lambda>p. if spec_admit p then p else None) ps"

text \<open>
  What the component shows or schedules: status, attempt counter, message sequence and
  pending retry timers.
\<close>

definition obs :: "state \<Rightarrow> string \<times> nat \<times> json list \<times> (nat \<times> real) list" where
  "obs s = (status s, attempt s, messages s, timers s)"

text \<open>The event is a run of the effect (a start).\<close>

fun is_Mount :: "event \<Rightarrow> bool" where
  "is_Mount (Mount throws) = True"
| "is_Mount e = False"

text \<open>The current socket exists and is open: the transport is connected.\<close>

definition socket_open :: "state \<Rightarrow> bool" where
  "socket_open s = (case wsRef s of None \<Rightarrow> False | Some ws \<Rightarrow> readyState s ws = 1)"

text \<open>
  While the displayed status is \<^verbatim>\<open>disconnected\<close> the current socket is not open.
\<close>

definition ws_inv :: "state \<Rightarrow> bool" where
  "ws_inv s = (status s \<noteq> ''disconnected'' \<or> \<not> socket_open s)"

text \<open>
  The state after a teardown: the manual-close flag is set and no timer is pending.
\<close>

definition stopped :: "state \<Rightarrow> bool" where
  "stopped s = (manualCloseRef s \<and> timers s = [])"

text \<open>
  Line 156 renders the member \<^verbatim>\<open>text\<close> of every message as a child of an element. React
  renders a string or a number and renders nothing for a boolean, \<^verbatim>\<open>null\<close> or
  \<^verbatim>\<open>undefined\<close>; for an object it throws. \<open>plain\<close> holds of the values of the first kind
  (arrays are left aside), \<open>renders\<close> of a frame whose body is absent or plain.
\<close>

fun plain :: "json \<Rightarrow> bool" where
  "plain (JArray xs) = False"
| "plain (JObject kvs) = False"
| "plain v = True"

definition renders :: "json \<Rightarrow> bool" where
  "renders data = (case get_prop data ''text'' of None \<Rightarrow> True | Some v \<Rightarrow> plain v)"

text \<open>
  The current socket is one that has been created.
\<close>

definition ref_inv :: "state \<Rightarrow> bool" where
  "ref_inv s = (case wsRef s of None \<Rightarrow> True | Some w \<Rightarrow> w < next_ws s)"

section \<open>Properties\<close>

subsection \<open>The retry delay\<close>

lemma baseDelay_ge: "500 \<le> baseDelay n"
proof -
  have "(1::real) \<le> 2 ^ n" by simp
  then have "(500::real) \<le> 500 * 2 ^ n" by simp
  then show ?thesis by (simp add: baseDelay_def)
qed

lemma baseDelay_le: "baseDelay n \<le> 10000"
  by (simp add: baseDelay_def)

lemma baseDelay_mono: "n \<le> n' \<Longrightarrow> baseDelay n \<le> baseDelay n'"
proof -
  assume "n \<le> n'"
  then have "(2::real) ^ n \<le> 2 ^ n'" by (simp add: power_increasing)
  then have "(500::real) * 2 ^ n \<le> 500 * 2 ^ n'" by simp
  then show ?thesis unfolding baseDelay_def by (rule min.mono[OF order_refl])
qed




lemma timers_onclose:
  "\<not> manualCloseRef s \<Longrightarrow>
   last (timers (onclose rnd s)) = (next_timer s, delay (attempt s) rnd)"
  by (simp add: onclose_def Let_def setTimeout_def clearTimeout_def split: option.splits prod.splits)

subsection \<open>Rounding to binary64\<close>

lemma round_even_of_int: "round_even (of_int n) = n"
  by (simp add: round_even_def)

lemma round_even_0: "round_even 0 = 0"
  using round_even_of_int[of 0] by simp

lemma round_even_numeral: "round_even (numeral n) = numeral n"
  using round_even_of_int[of "numeral n"] by simp

lemma round_even_cases: "round_even y = \<lfloor>y\<rfloor> \<or> round_even y = \<lfloor>y\<rfloor> + 1"
  by (simp add: round_even_def Let_def)

lemma round_even_eqI:
  assumes "of_int m - 1 / 2 < y" and "y < of_int m + 1 / 2"
  shows "round_even y = m"
proof (cases "of_int m \<le> y")
  case True
  then have f: "\<lfloor>y\<rfloor> = m" using assms by (intro floor_unique) auto
  show ?thesis using assms by (simp add: round_even_def f)
next
  case False
  then have f: "\<lfloor>y\<rfloor> = m - 1" using assms by (intro floor_unique) auto
  show ?thesis using assms False by (simp add: round_even_def f)
qed

lemma round_even_close: "\<bar>of_int (round_even y) - y\<bar> \<le> 1 / 2"
proof -
  have "of_int \<lfloor>y\<rfloor> \<le> y" "y < of_int \<lfloor>y\<rfloor> + 1" by linarith+
  then show ?thesis by (auto simp: round_even_def Let_def)
qed

lemma round_even_mono:
  assumes "y \<le> z"
  shows "round_even y \<le> round_even z"
proof (cases "\<lfloor>y\<rfloor> = \<lfloor>z\<rfloor>")
  case True
  then show ?thesis using assms by (auto simp: round_even_def Let_def)
next
  case False
  with assms have "\<lfloor>y\<rfloor> < \<lfloor>z\<rfloor>" using floor_mono[OF assms] by linarith
  then have "round_even y \<le> \<lfloor>z\<rfloor>" using round_even_cases[of y] by linarith
  then show ?thesis using round_even_cases[of z] by linarith
qed

lemma b64_ulp_pos: "0 < b64_ulp x"
  by (simp add: b64_ulp_def)

lemma b64_exponent_upper:
  assumes "0 < x"
  shows "x < 2 powr (of_int (b64_exponent x) + 1)"
proof -
  have "log 2 x < of_int \<lfloor>log 2 x\<rfloor> + 1" by linarith
  also have "\<dots> \<le> of_int (b64_exponent x) + 1" using assms by (simp add: b64_exponent_def)
  finally have "log 2 x < of_int (b64_exponent x) + 1" .
  then show ?thesis using assms by (simp add: log_less_iff)
qed

lemma b64_exponent_lower:
  assumes "0 < x" and "- 1022 < b64_exponent x"
  shows "2 powr of_int (b64_exponent x) \<le> x"
proof -
  from assms have "b64_exponent x = \<lfloor>log 2 x\<rfloor>" by (simp add: b64_exponent_def max_def split: if_splits)
  then have "of_int (b64_exponent x) \<le> log 2 x" by simp
  then show ?thesis using assms(1) by (simp add: le_log_iff)
qed

lemma b64_exponent_mono:
  assumes "0 < x" and "x \<le> y"
  shows "b64_exponent x \<le> b64_exponent y"
proof -
  have "log 2 x \<le> log 2 y" using assms by (simp add: log_mono)
  then have "\<lfloor>log 2 x\<rfloor> \<le> \<lfloor>log 2 y\<rfloor>" by (rule floor_mono)
  then show ?thesis using assms by (simp add: b64_exponent_def)
qed

lemma b64_exponent_eqI:
  assumes "2 powr of_int k \<le> x" and "x < 2 powr (of_int k + 1)" and "- 1022 \<le> k"
  shows "b64_exponent x = k"
proof -
  have "0 < x" using assms(1) by (smt (verit) powr_gt_zero)
  then have "\<lfloor>log 2 x\<rfloor> = k" using assms by (simp add: floor_log_eq_powr_iff)
  then show ?thesis using assms(3) \<open>0 < x\<close> by (simp add: b64_exponent_def)
qed

lemma b64_exponent_le:
  assumes "0 < x" and "x < 2 powr (of_int k + 1)" and "- 1022 \<le> k"
  shows "b64_exponent x \<le> k"
proof -
  have "log 2 x < of_int k + 1" using assms(1,2) by (simp add: log_less_iff)
  then have "\<lfloor>log 2 x\<rfloor> \<le> k" by (simp add: floor_le_iff)
  then show ?thesis using assms(1,3) by (simp add: b64_exponent_def)
qed

lemma fl_nonneg: "0 \<le> x \<Longrightarrow> 0 \<le> fl x"
proof -
  assume x: "0 \<le> x"
  have "0 \<le> x / b64_ulp x" using x b64_ulp_pos[of x] by simp
  then have "round_even 0 \<le> round_even (x / b64_ulp x)"
    by (rule round_even_mono)
  then have "0 \<le> round_even (x / b64_ulp x)" by (simp add: round_even_0)
  then show ?thesis using b64_ulp_pos[of x] by (simp add: fl_def)
qed

lemma fl_upper:
  assumes "0 < x"
  shows "fl x \<le> 2 powr (of_int (b64_exponent x) + 1)"
proof -
  let ?e = "of_int (b64_exponent x) :: real"
  have "x / b64_ulp x \<le> 2 powr (?e + 1) / 2 powr (?e - 52)"
    using b64_exponent_upper[OF assms] by (simp add: b64_ulp_def divide_right_mono)
  also have "\<dots> = 2 powr 53" by (simp flip: powr_diff)
  also have "\<dots> = 9007199254740992" by simp
  finally have "round_even (x / b64_ulp x) \<le> round_even 9007199254740992"
    by (rule round_even_mono)
  then have "round_even (x / b64_ulp x) \<le> 9007199254740992"
    by (simp only: round_even_numeral)
  then have "real_of_int (round_even (x / b64_ulp x)) \<le> real_of_int 9007199254740992"
    by (simp only: of_int_le_iff)
  then have "of_int (round_even (x / b64_ulp x)) \<le> (2 powr 53 :: real)"
    by simp
  then have "fl x \<le> 2 powr 53 * 2 powr (?e - 52)"
    using assms b64_ulp_pos[of x] by (simp add: fl_def b64_ulp_def)
  also have "\<dots> = 2 powr (53 + (?e - 52))" by (rule powr_add[symmetric])
  also have "\<dots> = 2 powr (?e + 1)" by (simp add: algebra_simps)
  finally show ?thesis .
qed

lemma fl_lower:
  assumes "0 < x" and "2 powr of_int (b64_exponent x) \<le> x"
  shows "2 powr of_int (b64_exponent x) \<le> fl x"
proof -
  let ?e = "of_int (b64_exponent x) :: real"
  have "2 powr ?e / 2 powr (?e - 52) \<le> x / b64_ulp x"
    using assms(2) by (simp add: b64_ulp_def divide_right_mono)
  moreover have "2 powr ?e / 2 powr (?e - 52) = 2 powr 52" by (simp flip: powr_diff)
  moreover have "(2 powr 52 :: real) = 4503599627370496" by simp
  ultimately have "round_even 4503599627370496 \<le> round_even (x / b64_ulp x)"
    by (intro round_even_mono) simp
  then have "4503599627370496 \<le> round_even (x / b64_ulp x)"
    by (simp only: round_even_numeral)
  then have "real_of_int 4503599627370496 \<le> real_of_int (round_even (x / b64_ulp x))"
    by (simp only: of_int_le_iff)
  then have "(2 powr 52 :: real) \<le> of_int (round_even (x / b64_ulp x))"
    by simp
  then have "2 powr 52 * 2 powr (?e - 52) \<le> fl x"
    using assms b64_ulp_pos[of x] by (simp add: fl_def b64_ulp_def)
  moreover have "2 powr 52 * 2 powr (?e - 52) = 2 powr (52 + (?e - 52))"
    by (rule powr_add[symmetric])
  ultimately show ?thesis by (simp add: algebra_simps)
qed

lemma fl_mono:
  assumes "0 \<le> x" and "x \<le> y"
  shows "fl x \<le> fl y"
proof (cases "x = 0")
  case True
  then show ?thesis using fl_nonneg[of y] assms by (simp add: fl_def)
next
  case False
  then have x: "0 < x" and y: "0 < y" using assms by simp_all
  have e: "b64_exponent x \<le> b64_exponent y" by (rule b64_exponent_mono[OF x assms(2)])
  show ?thesis
  proof (cases "b64_exponent x = b64_exponent y")
    case True
    then have u: "b64_ulp x = b64_ulp y" by (simp add: b64_ulp_def)
    have "x / b64_ulp y \<le> y / b64_ulp y"
      using assms(2) b64_ulp_pos[of y] by (simp add: divide_right_mono)
    then have "round_even (x / b64_ulp y) \<le> round_even (y / b64_ulp y)"
      by (rule round_even_mono)
    then show ?thesis using x y b64_ulp_pos[of y] by (simp add: fl_def u)
  next
    case False
    with e have lt: "b64_exponent x + 1 \<le> b64_exponent y" by simp
    then have "- 1022 < b64_exponent y" by (simp add: b64_exponent_def)
    then have "2 powr of_int (b64_exponent y) \<le> fl y"
      using fl_lower[OF y] b64_exponent_lower[OF y] by simp
    moreover have "fl x \<le> 2 powr (of_int (b64_exponent x) + 1)" by (rule fl_upper[OF x])
    moreover have "(2::real) powr (of_int (b64_exponent x) + 1) \<le> 2 powr of_int (b64_exponent y)"
      using lt by simp
    ultimately show ?thesis by linarith
  qed
qed

lemma fl_close: "\<bar>fl x - x\<bar> \<le> b64_ulp x / 2"
proof (cases "x = 0")
  case True
  then show ?thesis using b64_ulp_pos[of x] by (simp add: fl_def)
next
  case False
  define u where "u = b64_ulp x"
  define r :: real where "r = of_int (round_even (x / u))"
  have u: "0 < u" by (simp add: u_def b64_ulp_pos)
  have c: "\<bar>r - x / u\<bar> \<le> 1 / 2" unfolding r_def by (rule round_even_close)
  have "fl x - x = (r - x / u) * u"
    using False u by (simp add: fl_def r_def u_def[symmetric] left_diff_distrib)
  then have "\<bar>fl x - x\<bar> = \<bar>r - x / u\<bar> * u" using u by (simp add: abs_mult)
  also have "\<dots> \<le> 1 / 2 * u" using c u by (intro mult_right_mono) simp_all
  finally show ?thesis by (simp add: u_def)
qed

lemma fl_close_below:
  assumes "0 \<le> x" and "x < 2 powr (of_int k + 1)" and "- 1022 \<le> k"
  shows "\<bar>fl x - x\<bar> \<le> 2 powr (of_int k - 53)"
proof (cases "x = 0")
  case True
  then show ?thesis by (simp add: fl_def)
next
  case False
  then have x: "0 < x" using assms(1) by simp
  have "b64_exponent x \<le> k" by (rule b64_exponent_le[OF x assms(2,3)])
  then have "b64_ulp x \<le> 2 powr (of_int k - 52)" by (simp add: b64_ulp_def)
  then have "b64_ulp x / 2 \<le> 2 powr (of_int k - 52) / 2" by simp
  also have "\<dots> = 2 powr (of_int k - 52) / 2 powr 1" by simp
  also have "\<dots> = 2 powr (of_int k - 52 - 1)" by (rule powr_diff[symmetric])
  finally have "b64_ulp x / 2 \<le> 2 powr (of_int k - 53)" by (simp add: algebra_simps)
  then show ?thesis using fl_close[of x] by linarith
qed

lemma fl_eqI:
  assumes "2 powr of_int k \<le> x" and "x < 2 powr (of_int k + 1)" and "- 1022 \<le> k"
    and "of_int m - 1 / 2 < x / 2 powr (of_int k - 52)"
    and "x / 2 powr (of_int k - 52) < of_int m + 1 / 2"
  shows "fl x = of_int m * 2 powr (of_int k - 52)"
proof -
  have e: "b64_exponent x = k" by (rule b64_exponent_eqI[OF assms(1-3)])
  have "0 < x" using assms(1) by (smt (verit) powr_gt_zero)
  moreover have "round_even (x / 2 powr (of_int k - 52)) = m"
    by (rule round_even_eqI[OF assms(4,5)])
  ultimately show ?thesis by (simp add: fl_def b64_ulp_def e)
qed

lemma fl_0: "fl 0 = 0"
  by (simp add: fl_def)

lemma fl_300: "fl 300 = 300"
  using fl_eqI[of 8 300 "300 * 2 ^ 44"] by (simp add: powr_neg_numeral)

lemma fl_500: "fl 500 = 500"
  using fl_eqI[of 8 500 "500 * 2 ^ 44"] by (simp add: powr_neg_numeral)

lemma fl_10300: "fl 10300 = 10300"
  using fl_eqI[of 13 10300 "10300 * 2 ^ 39"] by (simp add: powr_neg_numeral)

lemma fl_rnd_max: "fl rnd_max = rnd_max"
  unfolding rnd_max_def
  using fl_eqI[of "- 1" "1 - 1 / 2 ^ 53" "2 ^ 53 - 1"] by (simp add: powr_neg_numeral)

lemma rnd_max_range: "0 \<le> rnd_max" "rnd_max < 1"
  by (simp_all add: rnd_max_def)

lemma jitter64_top: "jitter64 rnd_max = 300 - 1 / 2 ^ 44"
  unfolding jitter64_def rnd_max_def
  using fl_eqI[of 8 "(1 - 1 / 2 ^ 53) * 300" "300 * 2 ^ 44 - 1"] by (simp add: powr_neg_numeral)

lemma fl_sum_top: "fl (10000 + (300 - 1 / 2 ^ 44)) = 10300"
  using fl_eqI[of 13 "10000 + (300 - 1 / 2 ^ 44)" "10300 * 2 ^ 39"] by (simp add: powr_neg_numeral)

lemma fl_sum_top': "fl (10000 + jitter64 rnd_max) = 10300"
  by (simp only: jitter64_top fl_sum_top)

lemma jitter64_bounds:
  assumes "0 \<le> rnd" and "rnd < 1"
  shows "0 \<le> jitter64 rnd" and "jitter64 rnd \<le> 300"
proof -
  have a: "0 \<le> rnd * 300" using assms by simp
  show "0 \<le> jitter64 rnd" unfolding jitter64_def by (rule fl_nonneg[OF a])
  have "fl (rnd * 300) \<le> fl 300" using assms by (intro fl_mono) simp_all
  then show "jitter64 rnd \<le> 300" by (simp add: jitter64_def fl_300)
qed

lemma jitter64_less:
  assumes "0 \<le> rnd" and "rnd \<le> rnd_max"
  shows "jitter64 rnd < 300"
proof -
  have "fl (rnd * 300) \<le> fl (rnd_max * 300)" using assms by (intro fl_mono) simp_all
  then have "jitter64 rnd \<le> jitter64 rnd_max" by (simp add: jitter64_def)
  then show ?thesis by (simp add: jitter64_top)
qed

lemma jitter64_close:
  assumes "0 \<le> rnd" and "rnd < 1"
  shows "\<bar>jitter64 rnd - jitter rnd\<bar> \<le> 1 / 2 ^ 45"
proof -
  have "\<bar>fl (rnd * 300) - rnd * 300\<bar> \<le> 2 powr (of_int 8 - 53)"
    using assms by (intro fl_close_below) simp_all
  then show ?thesis by (simp add: jitter64_def jitter_def powr_neg_numeral)
qed

lemma sum64_bounds:
  assumes "0 \<le> rnd" and "rnd < 1"
  shows "500 \<le> fl (baseDelay n + jitter64 rnd)" and "fl (baseDelay n + jitter64 rnd) \<le> 10300"
proof -
  have j: "0 \<le> jitter64 rnd" "jitter64 rnd \<le> 300" using jitter64_bounds[OF assms] by simp_all
  have b: "500 \<le> baseDelay n" "baseDelay n \<le> 10000" by (rule baseDelay_ge, rule baseDelay_le)
  have "fl 500 \<le> fl (baseDelay n + jitter64 rnd)" using j b by (intro fl_mono) simp_all
  then show "500 \<le> fl (baseDelay n + jitter64 rnd)" by (simp add: fl_500)
  have "fl (baseDelay n + jitter64 rnd) \<le> fl 10300" using j b by (intro fl_mono) simp_all
  then show "fl (baseDelay n + jitter64 rnd) \<le> 10300" by (simp add: fl_10300)
qed

lemma delay64_close:
  assumes "0 \<le> rnd" and "rnd < 1"
  shows "\<bar>delay64 n rnd - delay n rnd\<bar> \<le> 1 / 2 ^ 39"
proof -
  have j: "0 \<le> jitter64 rnd" "jitter64 rnd \<le> 300" using jitter64_bounds[OF assms] by simp_all
  have b: "500 \<le> baseDelay n" "baseDelay n \<le> 10000" by (rule baseDelay_ge, rule baseDelay_le)
  have "\<bar>fl (baseDelay n + jitter64 rnd) - (baseDelay n + jitter64 rnd)\<bar> \<le> 2 powr (of_int 13 - 53)"
    using j b by (intro fl_close_below) simp_all
  then have s: "\<bar>fl (baseDelay n + jitter64 rnd) - (baseDelay n + jitter64 rnd)\<bar> \<le> 1 / 2 ^ 40"
    by (simp add: powr_neg_numeral)
  have c: "\<bar>jitter64 rnd - jitter rnd\<bar> \<le> 1 / 2 ^ 45" by (rule jitter64_close[OF assms])
  have "\<bar>delay64 n rnd - delay n rnd\<bar>
          \<le> \<bar>fl (baseDelay n + jitter64 rnd) - (baseDelay n + jitter rnd)\<bar>"
    unfolding delay64_def delay_def by linarith
  also have "\<dots> \<le> 1 / 2 ^ 40 + 1 / 2 ^ 45" using s c by linarith
  also have "\<dots> \<le> 1 / 2 ^ 39" by simp
  finally show ?thesis .
qed

lemma delay64_mono:
  assumes "0 \<le> rnd" and "rnd < 1" and "n \<le> n'"
  shows "delay64 n rnd \<le> delay64 n' rnd"
proof -
  have j: "0 \<le> jitter64 rnd" by (rule jitter64_bounds(1)[OF assms(1,2)])
  have b: "500 \<le> baseDelay n" by (rule baseDelay_ge)
  have "fl (baseDelay n + jitter64 rnd) \<le> fl (baseDelay n' + jitter64 rnd)"
    using j b baseDelay_mono[OF assms(3)] by (intro fl_mono) simp_all
  then show ?thesis by (simp add: delay64_def max_def)
qed

lemma delay64_top: "delay64 5 rnd_max = 10300"
proof -
  have "baseDelay 5 = 10000" by (simp add: baseDelay_def)
  then show ?thesis by (simp add: delay64_def fl_sum_top')
qed

lemma delay64_0_0: "delay64 0 0 = 500"
  by (simp add: delay64_def baseDelay_def jitter64_def fl_0 fl_500)

subsection \<open>The floor of the delay\<close>

text \<open>
  Claim C10, as the code has it. For every attempt count \<open>n\<close> and every random number
  from 0 up to the largest binary64 number below 1, the jitter \<^verbatim>\<open>Math.random() * 300\<close> lies in
  \<open>[0, 300)\<close>, the sum \<open>min(10000, 500 * 2^n) + jitter\<close> as the source computes it, in binary64,
  is at least 500, \<open>max(300, .)\<close> leaves it unchanged, and the delay lies in the closed
  interval \<open>[500, 10300]\<close>.
\<close>

theorem floor_never_binding:
  assumes "0 \<le> rnd" and "rnd \<le> rnd_max"
  shows "0 \<le> jitter64 rnd \<and> jitter64 rnd < 300
       \<and> 500 \<le> fl (min 10000 (500 * 2 ^ n) + jitter64 rnd)
       \<and> max 300 (fl (min 10000 (500 * 2 ^ n) + jitter64 rnd))
           = fl (min 10000 (500 * 2 ^ n) + jitter64 rnd)
       \<and> delay64 n rnd = fl (min 10000 (500 * 2 ^ n) + jitter64 rnd)
       \<and> 500 \<le> delay64 n rnd \<and> delay64 n rnd \<le> 10300"
proof -
  have r: "rnd < 1" using assms(2) rnd_max_range(2) by linarith
  define S where "S = fl (min 10000 (500 * 2 ^ n) + jitter64 rnd)"
  have S: "S = fl (baseDelay n + jitter64 rnd)" by (simp add: S_def baseDelay_def)
  have lo: "500 \<le> S" and hi: "S \<le> 10300"
    using sum64_bounds[OF assms(1) r, of n] by (simp_all add: S)
  have d: "delay64 n rnd = S" using lo by (simp add: delay64_def S)
  have "0 \<le> jitter64 rnd \<and> jitter64 rnd < 300 \<and> 500 \<le> S \<and> max 300 S = S
       \<and> delay64 n rnd = S \<and> 500 \<le> delay64 n rnd \<and> delay64 n rnd \<le> 10300"
    using jitter64_bounds(1)[OF assms(1) r] jitter64_less[OF assms] lo hi d
    by simp
  then show ?thesis unfolding S_def .
qed

theorem floor_never_binding_witness:
  "0 \<le> rnd_max \<and> delay64 5 rnd_max = 10300
   \<and> fl (min 10000 (500 * 2 ^ 5) + jitter64 rnd_max) = 10300
   \<and> delay64 0 0 = 500"
  using floor_never_binding[OF rnd_max_range(1) order_refl, of 5]
        floor_never_binding[OF order_refl rnd_max_range(1), of 0]
        rnd_max_range(1) delay64_top delay64_0_0
  by simp

text \<open>
  Claim C10 as stated fails at the upper end. For the random number \<open>1 - 2^-53\<close> the
  jitter is \<open>300 - 2^-44\<close>, below 300, and with the attempt count 5 the sum
  \<open>10000 + jitter\<close> rounds to 10300: the delay is not below 10300 and is not the exact sum.
\<close>

theorem floor_never_binding_counterexample:
  "rnd_max = 1 - 1 / 2 ^ 53 \<and> fl rnd_max = rnd_max \<and> 0 \<le> rnd_max \<and> rnd_max < 1
   \<and> jitter64 rnd_max = 300 - 1 / 2 ^ 44
   \<and> jitter64 rnd_max < 300
   \<and> delay64 5 rnd_max = 10300
   \<and> \<not> delay64 5 rnd_max < 10300
   \<and> delay64 5 rnd_max \<noteq> min 10000 (500 * 2 ^ 5) + jitter64 rnd_max"
  using fl_rnd_max rnd_max_range jitter64_top delay64_top rnd_max_def
  by simp

subsection \<open>The delay of the retry timer\<close>



subsection \<open>At most one pending timer\<close>

lemma timer_inv_cases:
  assumes "timer_inv s"
  obtains "timers s = []" "0 < next_timer s"
  | t d where "timers s = [(t, d)]" "retryTimeoutRef s = Some t" "0 < t" "0 < next_timer s"
proof (cases "timers s")
  case Nil
  then show ?thesis using assms that(1) by (simp add: timer_inv_def)
next
  case (Cons p ps)
  with assms have "ps = []" by (simp add: timer_inv_def)
  with Cons assms show ?thesis using that(2)[of "fst p" "snd p"] by (simp add: timer_inv_def)
qed

lemma timer_inv_init: "timer_inv (init env origin)"
  by (simp add: timer_inv_def init_def)

lemma timers_connect_throw:
  assumes "timer_inv s"
  shows "timers (connect True s) = [(next_timer s, 1000)]"
    and "retryTimeoutRef (connect True s) = Some (next_timer s)"
    and "next_timer (connect True s) = next_timer s + 1"
  using assms
  by (cases s rule: timer_inv_cases;
      simp add: connect_def new_WebSocket_def Let_def setTimeout_def clearTimeout_def
           split: option.splits prod.splits)+

lemma timers_connect_ok:
  shows "timers (connect False s) = timers s"
    and "retryTimeoutRef (connect False s) = retryTimeoutRef s"
    and "next_timer (connect False s) = next_timer s"
  by (simp_all add: connect_def new_WebSocket_def Let_def)

lemma timer_inv_connect: "timer_inv s \<Longrightarrow> timer_inv (connect throws s)"
proof (cases throws)
  case True
  assume "timer_inv s"
  then show ?thesis
    using timers_connect_throw[of s] True
    by (cases s rule: timer_inv_cases) (simp_all add: timer_inv_def)
next
  case False
  assume "timer_inv s"
  then show ?thesis using False by (simp add: timer_inv_def timers_connect_ok)
qed

lemma timers_onclose_inv:
  assumes "timer_inv s" "\<not> manualCloseRef s"
  shows "timers (onclose rnd s) = [(next_timer s, delay (attempt s) rnd)]"
    and "retryTimeoutRef (onclose rnd s) = Some (next_timer s)"
    and "next_timer (onclose rnd s) = next_timer s + 1"
  using assms
  by (cases s rule: timer_inv_cases;
      simp add: onclose_def Let_def setTimeout_def clearTimeout_def
           split: option.splits prod.splits)+

lemma onclose_manual: "manualCloseRef s \<Longrightarrow> onclose rnd s = s\<lparr>wsRef := None\<rparr>"
  by (simp add: onclose_def)

lemma timer_inv_onclose: "timer_inv s \<Longrightarrow> timer_inv (onclose rnd s)"
proof (cases "manualCloseRef s")
  case True
  assume "timer_inv s"
  then show ?thesis using True by (simp add: onclose_manual timer_inv_def)
next
  case False
  assume "timer_inv s"
  then show ?thesis
    using timers_onclose_inv[of s rnd] False
    by (cases s rule: timer_inv_cases) (simp_all add: timer_inv_def)
qed

lemma timers_cleanup: "timer_inv s \<Longrightarrow> timers (cleanup s) = []"
  by (cases s rule: timer_inv_cases)
     (simp_all add: cleanup_def Let_def clearTimeout_def ws_close_def split: option.splits)

lemma next_timer_cleanup: "next_timer (cleanup s) = next_timer s"
  by (simp add: cleanup_def Let_def clearTimeout_def ws_close_def split: option.splits)

lemma timer_inv_cleanup: "timer_inv s \<Longrightarrow> timer_inv (cleanup s)"
  by (simp add: timer_inv_def timers_cleanup next_timer_cleanup)

lemma timer_inv_clearTimeout_pending:
  assumes "timer_inv s" "t \<in> fst ` set (timers s)"
  shows "timer_inv (clearTimeout t s)"
  using assms by (cases s rule: timer_inv_cases) (auto simp: timer_inv_def clearTimeout_def)

lemma timer_inv_step: "timer_inv s \<Longrightarrow> timer_inv (step e s)"
proof (cases e)
  case (Mount throws)
  assume "timer_inv s"
  then have "timer_inv (s\<lparr>manualCloseRef := False, status := ''connecting''\<rparr>)"
    by (simp add: timer_inv_def)
  then show ?thesis using Mount by (simp add: mount_def timer_inv_connect)
next
  case Cleanup
  assume "timer_inv s"
  then show ?thesis using Cleanup by (simp add: timer_inv_cleanup)
next
  case (TimerFire t throws)
  assume "timer_inv s"
  then show ?thesis using TimerFire
    by (simp add: timer_inv_connect timer_inv_clearTimeout_pending)
next
  case (WsOpen ws)
  assume "timer_inv s"
  then show ?thesis using WsOpen by (simp add: timer_inv_def onopen_def)
next
  case (WsMessage ws parsed)
  assume "timer_inv s"
  then show ?thesis using WsMessage by (simp add: timer_inv_def onmessage_def split: option.splits)
next
  case (WsError ws)
  assume "timer_inv s"
  then show ?thesis using WsError by (simp add: timer_inv_def onerror_def)
next
  case (WsClose ws rnd)
  assume "timer_inv s"
  then have "timer_inv (s\<lparr>readyState := (readyState s)(ws := 3)\<rparr>)"
    by (simp add: timer_inv_def)
  then show ?thesis using WsClose by (simp add: timer_inv_onclose)
next
  case (SetInput x)
  assume "timer_inv s"
  then show ?thesis using SetInput by (simp add: timer_inv_def)
next
  case Send
  assume "timer_inv s"
  then show ?thesis using Send by (simp add: timer_inv_def send_def Let_def split: option.splits)
qed

lemma timer_inv_run: "timer_inv s \<Longrightarrow> timer_inv (run evs s)"
  unfolding run_def by (induction evs arbitrary: s) (simp_all add: timer_inv_step)

lemma timer_inv_reachable: "timer_inv (run evs (init env origin))"
  by (rule timer_inv_run[OF timer_inv_init])

lemma clearTimeout_absent: "t \<notin> fst ` set (timers s) \<Longrightarrow> clearTimeout t s = s"
proof -
  assume "t \<notin> fst ` set (timers s)"
  then have "filter (\<lambda>p. fst p \<noteq> t) (timers s) = timers s"
    by (intro filter_True) auto
  then show ?thesis by (simp add: clearTimeout_def)
qed

text \<open>
  Claim C7. After any sequence of events from the initial state at most one retry timer is
  pending. Both paths that set a timer, the close handler and the \<^verbatim>\<open>catch\<close> of \<^verbatim>\<open>connect\<close>,
  first clear the one \<open>retryTimeoutRef\<close> holds, so that afterwards the new timer is the only
  one. Clearing a timer that is not pending (it has fired) changes nothing, and with no timer
  recorded nothing is cleared.
\<close>

theorem one_timer:
  "length (timers (run evs (init env origin))) \<le> 1
   \<and> (\<not> manualCloseRef (run evs (init env origin)) \<longrightarrow>
        timers (step (WsClose ws rnd) (run evs (init env origin)))
          = [(next_timer (run evs (init env origin)), delay (attempt (run evs (init env origin))) rnd)])
   \<and> timers (connect True (run evs (init env origin)))
          = [(next_timer (run evs (init env origin)), 1000)]
   \<and> (t \<notin> fst ` set (timers s) \<longrightarrow> clearTimeout t s = s)
   \<and> (retryTimeoutRef s = None \<and> \<not> manualCloseRef s \<longrightarrow>
        timers (onclose rnd s) = timers s @ [(next_timer s, delay (attempt s) rnd)])"
proof -
  let ?s = "run evs (init env origin)"
  have inv: "timer_inv ?s" by (rule timer_inv_reachable)
  then have 1: "length (timers ?s) \<le> 1" by (simp add: timer_inv_def)
  have inv': "timer_inv (?s\<lparr>readyState := (readyState ?s)(ws := 3)\<rparr>)"
    using inv by (simp add: timer_inv_def)
  have 2: "timers (step (WsClose ws rnd) ?s) = [(next_timer ?s, delay (attempt ?s) rnd)]"
    if "\<not> manualCloseRef ?s"
    using timers_onclose_inv(1)[OF inv', of rnd] that by simp
  have 3: "timers (connect True ?s) = [(next_timer ?s, 1000)]"
    by (rule timers_connect_throw(1)[OF inv])
  have 5: "timers (onclose rnd s) = timers s @ [(next_timer s, delay (attempt s) rnd)]"
    if "retryTimeoutRef s = None" "\<not> manualCloseRef s"
    using that by (simp add: onclose_def Let_def setTimeout_def)
  show ?thesis using 1 2 3 5 clearTimeout_absent[of t s] by blast
qed

theorem one_timer_witness:
  "timers (run [Mount False, WsClose 0 0] (init None ''http://localhost:5173'')) = [(1, 500)]
   \<and> timers (step (WsClose 0 0) (run [Mount False, WsClose 0 0] (init None ''http://localhost:5173'')))
       = [(2, 1000)]
   \<and> timers (connect True (run [Mount False, WsClose 0 0] (init None ''http://localhost:5173'')))
       = [(2, 1000)]
   \<and> clearTimeout 7 (init None ''http://localhost:5173'') = init None ''http://localhost:5173''"
proof -
  let ?i = "init None ''http://localhost:5173''"
  let ?s = "run [Mount False, WsClose 0 0] ?i"
  have s: "timers ?s = [(1, 500)] \<and> \<not> manualCloseRef ?s \<and> next_timer ?s = 2 \<and> attempt ?s = 1"
    by (simp add: run_def init_def mount_def connect_def new_WebSocket_def onclose_def Let_def
                  setTimeout_def delay_def baseDelay_def jitter_def)
  have d: "delay 1 0 = 1000" by (simp add: delay_def baseDelay_def jitter_def)
  have a: "7 \<notin> fst ` set (timers ?i)" by (simp add: init_def)
  show ?thesis
    using one_timer[of "[Mount False, WsClose 0 0]" None "''http://localhost:5173''" 0 0 7 ?i] s d a
    by simp
qed

subsection \<open>The admission filter\<close>

lemma kind_eq_iff:
  "kind data = Some k \<longleftrightarrow> truthy data \<and> get_prop data ''type'' = Some (JString k)"
  by (cases data) (auto split: option.splits json.splits)

lemma onmessage_admit:
  "spec_admit (Some data) \<Longrightarrow> onmessage (Some data) s = s\<lparr>messages := messages s @ [data]\<rparr>"
  by (auto simp: spec_admit_def onmessage_def kind_eq_iff)

lemma onmessage_drop: "\<not> spec_admit parsed \<Longrightarrow> onmessage parsed s = s"
  by (cases parsed) (auto simp: spec_admit_def onmessage_def kind_eq_iff)

lemma messages_run_frames:
  "messages (run (map (\<lambda>(ws, p). WsMessage ws p) fs) s) = messages s @ admitted_frames (map snd fs)"
proof (induction fs arbitrary: s)
  case Nil
  show ?case by (simp add: run_def admitted_frames_def)
next
  case (Cons f fs)
  obtain ws p where f: "f = (ws, p)" by (cases f)
  have IH: "messages (run (map (\<lambda>(ws, p). WsMessage ws p) fs) (onmessage p s))
          = messages (onmessage p s) @ admitted_frames (map snd fs)"
    by (rule Cons.IH)
  show ?case
  proof (cases "spec_admit p")
    case True
    then obtain d where p: "p = Some d" by (cases p) (simp_all add: spec_admit_def)
    show ?thesis using IH True onmessage_admit[of d s]
      by (simp add: run_def f p admitted_frames_def map_filter_simps)
  next
    case False
    show ?thesis using IH False onmessage_drop[of p s]
      by (simp add: run_def f admitted_frames_def map_filter_simps)
  qed
qed

text \<open>
  Claim C4, as the code has it. The handler tests the kind only. A payload that
  deserialises with the kind \<^verbatim>\<open>message\<close> or \<^verbatim>\<open>system\<close> and whose body renders (the member
  \<^verbatim>\<open>text\<close> is absent, a string, a number, a boolean or \<^verbatim>\<open>null\<close>) is appended to the
  messages, and nothing else changes; so a frame of an accepted kind whose body is a number is
  admitted. Every payload that does not deserialise or has another kind, or none, leaves the
  state as it was. As long as the messages render, the frames admitted from a sequence of
  message events are appended in arrival order. Frames of an accepted kind whose body is an
  object or an array are left out of the statement.
\<close>

theorem admission:
  "(spec_admit (Some data) \<and> renders data \<and> list_all renders (messages s) \<longrightarrow>
      onmessage (Some data) s = s\<lparr>messages := messages s @ [data]\<rparr>)
   \<and> (\<not> spec_admit parsed \<longrightarrow> onmessage parsed s = s)
   \<and> \<not> spec_admit None
   \<and> (plain body \<longrightarrow>
        spec_admit (Some (JObject [(''type'', JString ''message''), (''text'', body)]))
        \<and> renders (JObject [(''type'', JString ''message''), (''text'', body)]))
   \<and> spec_admit (Some (JObject [(''type'', JString ''system'')]))
   \<and> renders (JObject [(''type'', JString ''system'')])
   \<and> (list_all renders (messages s @ admitted_frames (map snd fs)) \<longrightarrow>
        messages (run (map (\<lambda>(ws, p). WsMessage ws p) fs) s)
          = messages s @ admitted_frames (map snd fs))"
  using onmessage_admit[of data s] onmessage_drop[of parsed s] messages_run_frames[of fs s]
  by (simp add: spec_admit_def renders_def)

theorem admission_witness:
  "spec_admit (Some (JObject [(''type'', JString ''system''), (''text'', JString ''joined'')]))
   \<and> renders (JObject [(''type'', JString ''system''), (''text'', JString ''joined'')])
   \<and> \<not> spec_admit (Some (JObject [(''type'', JString ''ping'')]))
   \<and> plain (JNumber 42)
   \<and> messages (run [WsMessage 0 (Some (JObject [(''type'', JString ''system''), (''text'', JString ''joined'')])),
                      WsMessage 0 None,
                      WsMessage 0 (Some (JObject [(''type'', JString ''ping'')])),
                      WsMessage 0 (Some (JObject [(''type'', JString ''message''), (''text'', JNumber 42)]))]
                 (init None ''http://localhost:5173''))
     = [JObject [(''type'', JString ''system''), (''text'', JString ''joined'')],
        JObject [(''type'', JString ''message''), (''text'', JNumber 42)]]"
  using admission[of "JObject [(''type'', JString ''system''), (''text'', JString ''joined'')]"
                     "init None ''http://localhost:5173''"
                     "Some (JObject [(''type'', JString ''ping'')])"
                     "JNumber 42"
                     "[(0, Some (JObject [(''type'', JString ''system''), (''text'', JString ''joined'')])),
                       (0, None),
                       (0, Some (JObject [(''type'', JString ''ping'')])),
                       (0, Some (JObject [(''type'', JString ''message''), (''text'', JNumber 42)]))]"]
  by (simp add: spec_admit_def renders_def admitted_frames_def map_filter_simps init_def)

text \<open>
  Claim C4 as stated fails for a frame whose body is not text: the frame
  \<^verbatim>\<open>{"type":"message","text":42}\<close> arriving on the open socket is appended to the messages.
\<close>

theorem admission_counterexample:
  "\<not> text_body (JObject [(''type'', JString ''message''), (''text'', JNumber 42)])
   \<and> messages (step (WsMessage 0 (Some (JObject [(''type'', JString ''message''), (''text'', JNumber 42)])))
                    (run [Mount False, WsOpen 0] (init None ''http://localhost:5173'')))
     = [JObject [(''type'', JString ''message''), (''text'', JNumber 42)]]"
  by (simp add: run_def init_def mount_def connect_def new_WebSocket_def onopen_def onmessage_def)

subsection \<open>The attempt counter\<close>

lemma attempt_step:
  "attempt (step e s) =
     (case e of
        WsOpen ws \<Rightarrow> 0
      | WsClose ws rnd \<Rightarrow> if manualCloseRef s then attempt s else attempt s + 1
      | _ \<Rightarrow> attempt s)"
proof (cases e)
  case (Mount throws)
  then show ?thesis
    by (cases throws)
       (simp_all add: mount_def connect_def new_WebSocket_def Let_def setTimeout_def
                      clearTimeout_def split: option.splits prod.splits)
next
  case Cleanup
  then show ?thesis
    by (simp add: cleanup_def Let_def clearTimeout_def ws_close_def split: option.splits)
next
  case (TimerFire t throws)
  then show ?thesis
    by (cases throws)
       (simp_all add: connect_def new_WebSocket_def Let_def setTimeout_def
                      clearTimeout_def split: option.splits prod.splits)
next
  case (WsOpen ws)
  then show ?thesis by (simp add: onopen_def)
next
  case (WsMessage ws parsed)
  then show ?thesis by (simp add: onmessage_def split: option.splits)
next
  case (WsError ws)
  then show ?thesis by (simp add: onerror_def)
next
  case (WsClose ws rnd)
  then show ?thesis
    by (simp add: onclose_def Let_def setTimeout_def clearTimeout_def
             split: option.splits prod.splits)
next
  case (SetInput x)
  then show ?thesis by simp
next
  case Send
  then show ?thesis by (simp add: send_def Let_def split: option.splits)
qed

text \<open>
  Claim C6, as the code has it. The attempt counter is a natural number. Every open event
  sets it to 0, whatever it was. A close event outside a teardown adds exactly 1 and sets the
  retry timer, whose delay is computed from the count before the increment; a close event
  during a teardown leaves counter and timers alone. No other event changes the counter, so
  it never decreases except by the reset of an open event. In particular a connection attempt
  that fails in the constructor sets its retry timer of 1000 ms and leaves the counter as it
  was.
\<close>

theorem attempt_counter:
  "attempt (step (WsOpen ws) s) = 0
   \<and> attempt (step (WsClose ws rnd) s) = (if manualCloseRef s then attempt s else attempt s + 1)
   \<and> (\<not> manualCloseRef s \<longrightarrow>
        last (timers (step (WsClose ws rnd) s)) = (next_timer s, delay (attempt s) rnd))
   \<and> (manualCloseRef s \<longrightarrow> timers (step (WsClose ws rnd) s) = timers s)
   \<and> attempt (step e s) =
       (case e of
          WsOpen ws \<Rightarrow> 0
        | WsClose ws rnd \<Rightarrow> if manualCloseRef s then attempt s else attempt s + 1
        | _ \<Rightarrow> attempt s)
   \<and> ((\<exists>ws. e = WsOpen ws) \<or> attempt s \<le> attempt (step e s))
   \<and> attempt (connect True s) = attempt s
   \<and> last (timers (connect True s)) = (next_timer s, 1000)
   \<and> attempt (step (Mount True) s) = attempt s
   \<and> last (timers (step (Mount True) s)) = (next_timer s, 1000)"
proof -
  have a: "attempt (step e s) =
       (case e of
          WsOpen ws \<Rightarrow> 0
        | WsClose ws rnd \<Rightarrow> if manualCloseRef s then attempt s else attempt s + 1
        | _ \<Rightarrow> attempt s)" for e
    by (rule attempt_step)
  have t: "last (timers (step (WsClose ws rnd) s)) = (next_timer s, delay (attempt s) rnd)"
    if "\<not> manualCloseRef s"
    using that timers_onclose[of "s\<lparr>readyState := (readyState s)(ws := 3)\<rparr>" rnd] by simp
  have m: "timers (step (WsClose ws rnd) s) = timers s" if "manualCloseRef s"
    using that by (simp add: onclose_def)
  have n: "(\<exists>ws. e = WsOpen ws) \<or> attempt s \<le> attempt (step e s)"
    using a[of e] by (cases e) auto
  have c: "attempt (connect True s) = attempt s
         \<and> last (timers (connect True s)) = (next_timer s, 1000)" for s
    by (simp add: connect_def new_WebSocket_def Let_def setTimeout_def clearTimeout_def
             split: option.splits prod.splits)
  have c': "attempt (step (Mount True) s) = attempt s
         \<and> last (timers (step (Mount True) s)) = (next_timer s, 1000)"
    using c[of "s\<lparr>manualCloseRef := False, status := ''connecting''\<rparr>"] by (simp add: mount_def)
  show ?thesis using a[of "WsOpen ws"] a[of "WsClose ws rnd"] a[of e] t m n c[of s] c' by simp
qed

theorem attempt_counter_witness:
  "attempt (step (WsClose 0 0) (init None ''http://localhost:5173'')) = 1
   \<and> last (timers (step (WsClose 0 0) (init None ''http://localhost:5173''))) = (1, 500)
   \<and> attempt (step (WsOpen 1) (step (WsClose 0 0) (init None ''http://localhost:5173''))) = 0
   \<and> attempt (step (Mount True) (step (WsClose 0 0) (init None ''http://localhost:5173''))) = 1"
proof -
  let ?i = "init None ''http://localhost:5173''"
  have i: "\<not> manualCloseRef ?i \<and> attempt ?i = 0 \<and> next_timer ?i = 1" by (simp add: init_def)
  have d: "delay 0 0 = 500" by (simp add: delay_def baseDelay_def jitter_def)
  show ?thesis
    using attempt_counter[of 0 ?i 0 "WsClose 0 0"]
          attempt_counter[of 1 "step (WsClose 0 0) ?i" 0 "Mount True"] i d
    by simp
qed

text \<open>
  Claim C6 as stated fails for a connection attempt that fails in the constructor. With the
  configured address \<^verbatim>\<open>ftp://chat.example.com\<close> the URL is not one of a WebSocket and the
  constructor throws: after the first attempt, and after three failed attempts in a row, a
  retry is scheduled and the counter is still 0.
\<close>

theorem attempt_counter_counterexample:
  "wsUrl (init (Some ''ftp://chat.example.com'') ''http://localhost:5173'') = ''ftp://chat.example.com/ws''
   \<and> attempt (run [Mount True] (init (Some ''ftp://chat.example.com'') ''http://localhost:5173'')) = 0
   \<and> timers (run [Mount True] (init (Some ''ftp://chat.example.com'') ''http://localhost:5173''))
       = [(1, 1000)]
   \<and> attempt (run [Mount True, TimerFire 1 True, TimerFire 2 True]
                (init (Some ''ftp://chat.example.com'') ''http://localhost:5173'')) = 0
   \<and> timers (run [Mount True, TimerFire 1 True, TimerFire 2 True]
               (init (Some ''ftp://chat.example.com'') ''http://localhost:5173''))
       = [(3, 1000)]"
  by (simp add: run_def init_def mount_def connect_def new_WebSocket_def Let_def setTimeout_def
                clearTimeout_def BACKEND_URL_def compute_wsUrl_def strip_slash_def http_to_ws_def)

subsection \<open>Failure of the constructor\<close>

text \<open>
  Claim C8. When \<^verbatim>\<open>new WebSocket\<close> throws, \<^verbatim>\<open>connect\<close> catches the exception and returns:
  the status is \<^verbatim>\<open>error\<close> and a retry timer of 1000 ms is set, whatever the attempt count,
  which is left as it was, as is the current socket. From a reachable state that timer is
  the only pending one, whether \<^verbatim>\<open>connect\<close> was called by the effect or by a timer.
\<close>

theorem construction_failure:
  "new_WebSocket True (wsUrl s) s = Inl DOMException
   \<and> status (connect True s) = ''error''
   \<and> last (timers (connect True s)) = (next_timer s, 1000)
   \<and> retryTimeoutRef (connect True s) = Some (next_timer s)
   \<and> attempt (connect True s) = attempt s
   \<and> wsRef (connect True s) = wsRef s
   \<and> timers (step (Mount True) (run evs (init env origin)))
       = [(next_timer (run evs (init env origin)), 1000)]
   \<and> (t \<in> fst ` set (timers (run evs (init env origin))) \<longrightarrow>
        timers (step (TimerFire t True) (run evs (init env origin)))
          = [(next_timer (run evs (init env origin)), 1000)])"
proof -
  let ?s = "run evs (init env origin)"
  have a: "new_WebSocket True (wsUrl s) s = Inl DOMException
     \<and> status (connect True s) = ''error''
     \<and> last (timers (connect True s)) = (next_timer s, 1000)
     \<and> retryTimeoutRef (connect True s) = Some (next_timer s)
     \<and> attempt (connect True s) = attempt s
     \<and> wsRef (connect True s) = wsRef s"
    by (simp add: connect_def new_WebSocket_def Let_def setTimeout_def clearTimeout_def
             split: option.splits prod.splits)
  have inv: "timer_inv ?s" by (rule timer_inv_reachable)
  then have "timer_inv (?s\<lparr>manualCloseRef := False, status := ''connecting''\<rparr>)"
    by (simp add: timer_inv_def)
  from timers_connect_throw(1)[OF this]
  have m: "timers (step (Mount True) ?s) = [(next_timer ?s, 1000)]"
    by (simp add: mount_def)
  have f: "timers (step (TimerFire t True) ?s) = [(next_timer ?s, 1000)]"
    if "t \<in> fst ` set (timers ?s)"
  proof -
    have "timer_inv (clearTimeout t ?s)"
      by (rule timer_inv_clearTimeout_pending[OF inv that])
    from timers_connect_throw(1)[OF this] that show ?thesis
      by (simp add: clearTimeout_def)
  qed
  show ?thesis using a m f by simp
qed

theorem construction_failure_witness:
  "timers (step (TimerFire 1 True) (run [Mount True] (init None ''http://localhost:5173''))) = [(2, 1000)]
   \<and> timers (step (Mount True) (run [Mount False, WsClose 0 0, WsClose 0 0, WsClose 0 0]
                                     (init None ''http://localhost:5173''))) = [(4, 1000)]"
proof -
  let ?i = "init None ''http://localhost:5173''"
  have a: "1 \<in> fst ` set (timers (run [Mount True] ?i)) \<and> next_timer (run [Mount True] ?i) = 2"
    by (simp add: run_def init_def mount_def connect_def new_WebSocket_def Let_def setTimeout_def)
  have b: "next_timer (run [Mount False, WsClose 0 0, WsClose 0 0, WsClose 0 0] ?i) = 4"
    by (simp add: run_def init_def mount_def connect_def new_WebSocket_def onclose_def Let_def
                  setTimeout_def clearTimeout_def)
  show ?thesis
    using construction_failure[of "?i" "[Mount True]" None "''http://localhost:5173''" 1]
          construction_failure[of "?i" "[Mount False, WsClose 0 0, WsClose 0 0, WsClose 0 0]" None
                                  "''http://localhost:5173''" 1] a b
    by simp
qed

subsection \<open>The endpoint\<close>

lemma wsUrl_step: "wsUrl (step e s) = wsUrl s"
proof (cases e)
  case (Mount throws)
  then show ?thesis
    by (cases throws)
       (simp_all add: mount_def connect_def new_WebSocket_def Let_def setTimeout_def
                      clearTimeout_def split: option.splits prod.splits)
next
  case Cleanup
  then show ?thesis
    by (simp add: cleanup_def Let_def clearTimeout_def ws_close_def split: option.splits)
next
  case (TimerFire t throws)
  then show ?thesis
    by (cases throws)
       (simp_all add: connect_def new_WebSocket_def Let_def setTimeout_def
                      clearTimeout_def split: option.splits prod.splits)
next
  case (WsOpen ws)
  then show ?thesis by (simp add: onopen_def)
next
  case (WsMessage ws parsed)
  then show ?thesis by (simp add: onmessage_def split: option.splits)
next
  case (WsError ws)
  then show ?thesis by (simp add: onerror_def)
next
  case (WsClose ws rnd)
  then show ?thesis
    by (simp add: onclose_def Let_def setTimeout_def clearTimeout_def
             split: option.splits prod.splits)
next
  case (SetInput x)
  then show ?thesis by simp
next
  case Send
  then show ?thesis by (simp add: send_def Let_def split: option.splits)
qed

lemma ws_calls_connect: "ws_calls (connect throws s) = ws_calls s @ [wsUrl s]"
  by (cases throws)
     (simp_all add: connect_def new_WebSocket_def Let_def setTimeout_def
                    clearTimeout_def split: option.splits prod.splits)

lemma ws_calls_step: "set (ws_calls (step e s)) \<subseteq> insert (wsUrl s) (set (ws_calls s))"
proof (cases e)
  case (Mount throws)
  then show ?thesis by (auto simp: mount_def ws_calls_connect)
next
  case Cleanup
  then show ?thesis
    by (auto simp: cleanup_def Let_def clearTimeout_def ws_close_def split: option.splits)
next
  case (TimerFire t throws)
  then show ?thesis by (auto simp: ws_calls_connect clearTimeout_def)
next
  case (WsOpen ws)
  then show ?thesis by (auto simp: onopen_def)
next
  case (WsMessage ws parsed)
  then show ?thesis by (auto simp: onmessage_def split: option.splits)
next
  case (WsError ws)
  then show ?thesis by (auto simp: onerror_def)
next
  case (WsClose ws rnd)
  then show ?thesis
    by (auto simp: onclose_def Let_def setTimeout_def clearTimeout_def
             split: option.splits prod.splits)
next
  case (SetInput x)
  then show ?thesis by auto
next
  case Send
  then show ?thesis by (auto simp: send_def Let_def split: option.splits)
qed

lemma wsUrl_run: "wsUrl (run evs s) = wsUrl s"
  unfolding run_def by (induction evs arbitrary: s) (simp_all add: wsUrl_step)

lemma ws_calls_run: "set (ws_calls (run evs s)) \<subseteq> insert (wsUrl s) (set (ws_calls s))"
proof (induction evs arbitrary: s)
  case Nil
  show ?case by (auto simp: run_def)
next
  case (Cons e evs)
  have "set (ws_calls (run evs (step e s))) \<subseteq> insert (wsUrl (step e s)) (set (ws_calls (step e s)))"
    by (rule Cons.IH)
  then show ?case using ws_calls_step[of e s] by (auto simp: run_def wsUrl_step)
qed

text \<open>
  Claim C9. The URL is a function of the configured address and the window origin: with an
  empty address the origin is the base; one trailing slash of the address is dropped; a
  leading \<^verbatim>\<open>http\<close> becomes \<^verbatim>\<open>ws\<close>, so \<^verbatim>\<open>https\<close> becomes \<^verbatim>\<open>wss\<close>; \<^verbatim>\<open>/ws\<close> is appended.
  It is computed for the initial state, no event changes it, and every socket of the session
  is constructed with it.
\<close>

theorem endpoint_resolution:
  "compute_wsUrl [] origin = http_to_ws origin @ ''/ws''
   \<and> (b \<noteq> [] \<longrightarrow> compute_wsUrl (b @ ''/'') origin = http_to_ws b @ ''/ws'')
   \<and> (b \<noteq> [] \<and> last b \<noteq> CHR ''/'' \<longrightarrow> compute_wsUrl b origin = http_to_ws b @ ''/ws'')
   \<and> http_to_ws (''http'' @ r) = ''ws'' @ r
   \<and> http_to_ws (''https'' @ r) = ''wss'' @ r
   \<and> BACKEND_URL None = [] \<and> BACKEND_URL (Some v) = v
   \<and> wsUrl (init env origin) = compute_wsUrl (BACKEND_URL env) origin
   \<and> wsUrl (run evs (init env origin)) = wsUrl (init env origin)
   \<and> set (ws_calls (run evs (init env origin))) \<subseteq> {wsUrl (init env origin)}"
proof -
  have 1: "compute_wsUrl [] origin = http_to_ws origin @ ''/ws''"
    by (simp add: compute_wsUrl_def strip_slash_def)
  have 2: "compute_wsUrl (b @ ''/'') origin = http_to_ws b @ ''/ws''" if "b \<noteq> []"
    using that by (simp add: compute_wsUrl_def strip_slash_def butlast_append)
  have 3: "compute_wsUrl b origin = http_to_ws b @ ''/ws''" if "b \<noteq> []" "last b \<noteq> CHR ''/''"
    using that by (simp add: compute_wsUrl_def strip_slash_def)
  have 4: "http_to_ws (''http'' @ r) = ''ws'' @ r" "http_to_ws (''https'' @ r) = ''wss'' @ r"
    by (simp_all add: http_to_ws_def)
  have 5: "BACKEND_URL None = []" "BACKEND_URL (Some v) = v"
    by (simp_all add: BACKEND_URL_def)
  have 6: "wsUrl (init env origin) = compute_wsUrl (BACKEND_URL env) origin"
    by (simp add: init_def)
  have 7: "set (ws_calls (run evs (init env origin))) \<subseteq> {wsUrl (init env origin)}"
    using ws_calls_run[of evs "init env origin"] by (simp add: init_def)
  show ?thesis using 1 2 3 4 5 6 7 wsUrl_run[of evs "init env origin"] by simp
qed

theorem endpoint_resolution_witness:
  "compute_wsUrl ''https://chat.example.com/'' ''http://localhost:5173'' = ''wss://chat.example.com/ws''
   \<and> compute_wsUrl ''http://10.0.0.2:8000'' ''http://localhost:5173'' = ''ws://10.0.0.2:8000/ws''
   \<and> compute_wsUrl [] ''http://localhost:5173'' = ''ws://localhost:5173/ws''
   \<and> ws_calls (run [Mount False, WsClose 0 0, TimerFire 1 False] (init (Some ''https://chat.example.com/'') ''http://localhost:5173''))
       = [''wss://chat.example.com/ws'', ''wss://chat.example.com/ws'']"
proof -
  have n: "''https://chat.example.com'' \<noteq> []" "''http://10.0.0.2:8000'' \<noteq> []"
          "last ''http://10.0.0.2:8000'' \<noteq> CHR ''/''" by simp_all
  have c: "ws_calls (run [Mount False, WsClose 0 0, TimerFire 1 False] (init (Some ''https://chat.example.com/'') ''http://localhost:5173''))
       = [''wss://chat.example.com/ws'', ''wss://chat.example.com/ws'']"
    by (simp add: run_def init_def mount_def connect_def new_WebSocket_def onclose_def Let_def
                  setTimeout_def clearTimeout_def BACKEND_URL_def compute_wsUrl_def strip_slash_def
                  http_to_ws_def)
  show ?thesis
    using endpoint_resolution[of "''http://localhost:5173''" "''https://chat.example.com''" "''s://chat.example.com''"
                                 "''x''" None "[]"]
          endpoint_resolution[of "''http://localhost:5173''" "''http://10.0.0.2:8000''" "''://10.0.0.2:8000''"
                                 "''x''" None "[]"] n c
    by (simp add: http_to_ws_def)
qed

subsection \<open>Sending\<close>

lemma ws_inv_init: "ws_inv (init env origin)"
  by (simp add: ws_inv_def init_def)

lemma ws_inv_step: "ws_inv s \<Longrightarrow> ws_inv (step e s)"
proof (cases e)
  case (Mount throws)
  then show ?thesis
    by (cases throws)
       (simp_all add: ws_inv_def socket_open_def mount_def connect_def new_WebSocket_def
                      Let_def setTimeout_def clearTimeout_def split: option.splits prod.splits)
next
  case Cleanup
  assume "ws_inv s"
  then show ?thesis using Cleanup
    by (auto simp: ws_inv_def socket_open_def cleanup_def Let_def clearTimeout_def ws_close_def
             split: option.splits)
next
  case (TimerFire t throws)
  assume "ws_inv s"
  then show ?thesis using TimerFire
    by (cases throws)
       (auto simp: ws_inv_def socket_open_def connect_def new_WebSocket_def
                   Let_def setTimeout_def clearTimeout_def split: option.splits prod.splits)
next
  case (WsOpen ws)
  then show ?thesis by (simp add: ws_inv_def onopen_def)
next
  case (WsMessage ws parsed)
  assume "ws_inv s"
  then show ?thesis using WsMessage
    by (auto simp: ws_inv_def socket_open_def onmessage_def split: option.splits)
next
  case (WsError ws)
  then show ?thesis by (simp add: ws_inv_def onerror_def)
next
  case (WsClose ws rnd)
  then show ?thesis
    by (simp add: ws_inv_def socket_open_def onclose_def Let_def setTimeout_def clearTimeout_def
             split: option.splits prod.splits)
next
  case (SetInput x)
  assume "ws_inv s"
  then show ?thesis using SetInput
    by (auto simp: ws_inv_def socket_open_def split: option.splits)
next
  case Send
  assume "ws_inv s"
  then show ?thesis using Send
    by (auto simp: ws_inv_def socket_open_def send_def Let_def split: option.splits)
qed

lemma ws_inv_run: "ws_inv s \<Longrightarrow> ws_inv (run evs s)"
  unfolding run_def by (induction evs arbitrary: s) (simp_all add: ws_inv_step)

lemma send_rejects: "trim (input s) = [] \<or> \<not> socket_open s \<Longrightarrow> send s = (None, s)"
  by (auto simp: send_def socket_open_def Let_def split: option.splits)

lemma send_accepts:
  "trim (input s) \<noteq> [] \<Longrightarrow> wsRef s = Some ws \<Longrightarrow> readyState s ws = 1 \<Longrightarrow>
   send s = (None, s\<lparr>sent := sent s @ [(ws, JObject [(''type'', JString ''message''),
                                                   (''text'', JString (trim (input s)))])],
                    input := []\<rparr>)"
  by (simp add: send_def Let_def)

lemma trim_blank: "trim [] = []" "trim ''   '' = []"
  by (simp_all add: trim_def is_space_def)

text \<open>
  Claim C5, as the code has it. \<^verbatim>\<open>send\<close> returns \<^verbatim>\<open>undefined\<close> on every path. It hands
  nothing to the transport and changes nothing unless the current socket exists and is open
  and the input is non-empty after trimming; then it hands exactly one frame
  \<^verbatim>\<open>{"type":"message","text":<trimmed input>}\<close> to that socket and clears the input. With the
  input \<^verbatim>\<open>""\<close> or \<^verbatim>\<open>"   "\<close>, and in every reachable state whose status is
  \<^verbatim>\<open>disconnected\<close>, nothing is sent.
\<close>

theorem send_spec:
  "fst (send s) = None
   \<and> (trim (input s) = [] \<or> \<not> socket_open s \<longrightarrow> snd (send s) = s)
   \<and> (trim (input s) \<noteq> [] \<and> wsRef s = Some ws \<and> readyState s ws = 1 \<longrightarrow>
        snd (send s) = s\<lparr>sent := sent s @ [(ws, JObject [(''type'', JString ''message''),
                                                         (''text'', JString (trim (input s)))])],
                          input := []\<rparr>)
   \<and> (input s = [] \<or> input s = ''   '' \<longrightarrow> snd (send s) = s)
   \<and> (status (run evs (init env origin)) = ''disconnected'' \<longrightarrow>
        snd (send (run evs (init env origin))) = run evs (init env origin))"
proof -
  have r: "fst (send s) = None"
    by (simp add: send_def Let_def split: option.splits)
  have d: "snd (send (run evs (init env origin))) = run evs (init env origin)"
    if "status (run evs (init env origin)) = ''disconnected''"
  proof -
    have "ws_inv (run evs (init env origin))" by (rule ws_inv_run[OF ws_inv_init])
    with that have "\<not> socket_open (run evs (init env origin))" by (simp add: ws_inv_def)
    then show ?thesis by (simp add: send_rejects)
  qed
  have b: "snd (send s) = s" if "input s = [] \<or> input s = ''   ''"
    using that trim_blank by (auto simp: send_rejects)
  show ?thesis
    using r d b send_rejects[of s] send_accepts[of s ws] by auto
qed

theorem send_spec_witness:
  "snd (send (run [Mount False, WsOpen 0, SetInput '' hi ''] (init None ''http://localhost:5173'')))
     = (run [Mount False, WsOpen 0, SetInput '' hi ''] (init None ''http://localhost:5173''))
         \<lparr>sent := [(0, JObject [(''type'', JString ''message''), (''text'', JString ''hi'')])],
          input := []\<rparr>
   \<and> snd (send (init None ''http://localhost:5173'')) = init None ''http://localhost:5173''
   \<and> status (run [Mount False, WsOpen 0, WsClose 0 0] (init None ''http://localhost:5173'')) = ''disconnected''
   \<and> snd (send (run [Mount False, WsOpen 0, WsClose 0 0] (init None ''http://localhost:5173'')))
     = run [Mount False, WsOpen 0, WsClose 0 0] (init None ''http://localhost:5173'')"
proof -
  let ?i = "init None ''http://localhost:5173''"
  let ?s = "run [Mount False, WsOpen 0, SetInput '' hi ''] ?i"
  have s: "trim (input ?s) = ''hi'' \<and> wsRef ?s = Some 0 \<and> readyState ?s 0 = 1 \<and> sent ?s = []"
    by (simp add: run_def init_def mount_def connect_def new_WebSocket_def onopen_def
                  trim_def is_space_def)
  have i: "input ?i = []" by (simp add: init_def)
  have c: "status (run [Mount False, WsOpen 0, WsClose 0 0] ?i) = ''disconnected''"
    by (simp add: run_def init_def mount_def connect_def new_WebSocket_def onopen_def
                  onclose_def Let_def setTimeout_def)
  show ?thesis
    using send_spec[of ?s 0 "[Mount False, WsOpen 0, WsClose 0 0]" None "''http://localhost:5173''"]
          send_spec[of ?i 0 "[]" None "''http://localhost:5173''"] s i c
    by simp
qed

text \<open>
  Claim C5 as stated fails: a call that sends its frame and a call rejected for an empty
  input return the same value, so the result reports neither success nor failure. Nor is the
  displayed status what \<^verbatim>\<open>send\<close> tests: after an earlier socket, left connecting by a
  cleanup, has opened, the status is \<^verbatim>\<open>connected\<close> while the current socket is not open,
  and a non-empty input is not sent.
\<close>

theorem send_counterexample:
  "sent (snd (send (run [Mount False, WsOpen 0, SetInput ''hi''] (init None ''http://localhost:5173''))))
     = [(0, JObject [(''type'', JString ''message''), (''text'', JString ''hi'')])]
   \<and> sent (snd (send (run [Mount False, WsOpen 0, SetInput []] (init None ''http://localhost:5173'')))) = []
   \<and> fst (send (run [Mount False, WsOpen 0, SetInput ''hi''] (init None ''http://localhost:5173'')))
     = fst (send (run [Mount False, WsOpen 0, SetInput []] (init None ''http://localhost:5173'')))
   \<and> status (run [Mount False, Cleanup, Mount False, WsOpen 0, SetInput ''hi'']
                (init None ''http://localhost:5173'')) = ''connected''
   \<and> sent (snd (send (run [Mount False, Cleanup, Mount False, WsOpen 0, SetInput ''hi'']
                          (init None ''http://localhost:5173'')))) = []"
  by (simp add: run_def init_def mount_def connect_def new_WebSocket_def onopen_def send_def
                cleanup_def trim_def is_space_def Let_def)

subsection \<open>Events of any socket\<close>

lemma obs_open: "(obs (step (WsOpen ws) s) = obs s) = (status s = ''connected'' \<and> attempt s = 0)"
  by (auto simp: obs_def onopen_def)

lemma obs_message: "(obs (step (WsMessage ws parsed) s) = obs s) = (\<not> spec_admit parsed)"
proof (cases "spec_admit parsed")
  case True
  then obtain d where "parsed = Some d" by (cases parsed) (simp_all add: spec_admit_def)
  with True show ?thesis using onmessage_admit[of d s] by (simp add: obs_def)
next
  case False
  then show ?thesis by (simp add: onmessage_drop)
qed

lemma obs_error: "(obs (step (WsError ws) s) = obs s) = (status s = ''error'')"
  by (auto simp: obs_def onerror_def)

lemma obs_close: "(obs (step (WsClose ws rnd) s) = obs s) = manualCloseRef s"
proof (cases "manualCloseRef s")
  case True
  then show ?thesis by (simp add: obs_def onclose_def)
next
  case False
  then have "attempt (step (WsClose ws rnd) s) = attempt s + 1"
    by (simp add: onclose_def Let_def setTimeout_def clearTimeout_def
             split: option.splits prod.splits)
  then have "attempt (step (WsClose ws rnd) s) \<noteq> attempt s" by simp
  then have "obs (step (WsClose ws rnd) s) \<noteq> obs s" unfolding obs_def by blast
  with False show ?thesis by simp
qed

lemma obs_any_socket:
  "obs (step (WsOpen ws) s) = obs (step (WsOpen ws') s)"
  "obs (step (WsMessage ws parsed) s) = obs (step (WsMessage ws' parsed) s)"
  "obs (step (WsError ws) s) = obs (step (WsError ws') s)"
  "obs (step (WsClose ws rnd) s) = obs (step (WsClose ws' rnd) s)"
  by (simp_all add: obs_def onopen_def onclose_def Let_def setTimeout_def clearTimeout_def
               split: option.splits prod.splits)

text \<open>
  Claim C1, as the code has it. No handler checks which socket fired it: an event changes
  status, attempt counter, messages and timers in the same way whether its socket is the
  current one or a superseded one. It leaves all four unchanged exactly when: for an open
  event, the status is already \<^verbatim>\<open>connected\<close> and the counter 0; for a message event, the
  payload is not admitted; for an error event, the status is already \<^verbatim>\<open>error\<close>; for a
  close event, the manual-close flag is set.
\<close>

theorem stale_events:
  "(obs (step (WsOpen ws) s) = obs s) = (status s = ''connected'' \<and> attempt s = 0)
   \<and> (obs (step (WsMessage ws parsed) s) = obs s) = (\<not> spec_admit parsed)
   \<and> (obs (step (WsError ws) s) = obs s) = (status s = ''error'')
   \<and> (obs (step (WsClose ws rnd) s) = obs s) = manualCloseRef s
   \<and> obs (step (WsOpen ws) s) = obs (step (WsOpen ws') s)
   \<and> obs (step (WsMessage ws parsed) s) = obs (step (WsMessage ws' parsed) s)
   \<and> obs (step (WsError ws) s) = obs (step (WsError ws') s)
   \<and> obs (step (WsClose ws rnd) s) = obs (step (WsClose ws' rnd) s)"
  using obs_open[of ws s] obs_message[of ws parsed s] obs_error[of ws s] obs_close[of ws rnd s]
        obs_any_socket(1)[of ws s ws'] obs_any_socket(2)[of ws parsed s ws']
        obs_any_socket(3)[of ws s ws'] obs_any_socket(4)[of ws rnd s ws']
  by blast

text \<open>
  Claim C1 as stated fails. The effect runs, is cleaned up while socket 0 is still
  connecting (so it is not closed) and runs again: socket 1 is current and socket 0 is
  superseded. An open event of socket 0 then turns the status from \<^verbatim>\<open>connecting\<close> to
  \<^verbatim>\<open>connected\<close>, and a close event of socket 0 increments the counter and sets a retry timer.
\<close>

theorem stale_events_counterexample:
  "wsRef (run [Mount False, Cleanup, Mount False] (init None ''http://localhost:5173'')) = Some 1
   \<and> readyState (run [Mount False, Cleanup, Mount False] (init None ''http://localhost:5173'')) 0 = 0
   \<and> status (run [Mount False, Cleanup, Mount False] (init None ''http://localhost:5173'')) = ''connecting''
   \<and> status (step (WsOpen 0) (run [Mount False, Cleanup, Mount False] (init None ''http://localhost:5173'')))
       = ''connected''
   \<and> attempt (run [Mount False, Cleanup, Mount False] (init None ''http://localhost:5173'')) = 0
   \<and> attempt (step (WsClose 0 0) (run [Mount False, Cleanup, Mount False] (init None ''http://localhost:5173''))) = 1
   \<and> timers (step (WsClose 0 0) (run [Mount False, Cleanup, Mount False] (init None ''http://localhost:5173'')))
       = [(1, 500)]"
  by (simp add: run_def init_def mount_def connect_def new_WebSocket_def cleanup_def onopen_def
                onclose_def Let_def setTimeout_def delay_def baseDelay_def jitter_def)

subsection \<open>After the cleanup\<close>

lemma stopped_cleanup: "timer_inv s \<Longrightarrow> stopped (cleanup s)"
  using timers_cleanup[of s]
  by (simp add: stopped_def) (simp add: cleanup_def Let_def clearTimeout_def ws_close_def split: option.splits)

lemma stopped_step: "stopped s \<Longrightarrow> \<not> is_Mount e \<Longrightarrow> stopped (step e s)"
proof (cases e)
  case (Mount throws)
  assume "\<not> is_Mount e"
  with Mount show ?thesis by simp
next
  case Cleanup
  assume "stopped s"
  then show ?thesis using Cleanup
    by (simp add: stopped_def cleanup_def Let_def clearTimeout_def ws_close_def split: option.splits)
next
  case (TimerFire t throws)
  assume "stopped s"
  then show ?thesis using TimerFire by (simp add: stopped_def)
next
  case (WsOpen ws)
  assume "stopped s"
  then show ?thesis using WsOpen by (simp add: stopped_def onopen_def)
next
  case (WsMessage ws parsed)
  assume "stopped s"
  then show ?thesis using WsMessage by (simp add: stopped_def onmessage_def split: option.splits)
next
  case (WsError ws)
  assume "stopped s"
  then show ?thesis using WsError by (simp add: stopped_def onerror_def)
next
  case (WsClose ws rnd)
  assume "stopped s"
  then show ?thesis using WsClose by (simp add: stopped_def onclose_def)
next
  case (SetInput x)
  assume "stopped s"
  then show ?thesis using SetInput by (simp add: stopped_def)
next
  case Send
  assume "stopped s"
  then show ?thesis using Send by (simp add: stopped_def send_def Let_def split: option.splits)
qed

lemma stopped_run: "stopped s \<Longrightarrow> list_all (\<lambda>e. \<not> is_Mount e) evs \<Longrightarrow> stopped (run evs s)"
  unfolding run_def by (induction evs arbitrary: s) (simp_all add: stopped_step)

lemma readyState_cleanup:
  "readyState (cleanup s) =
     (case wsRef s of
        None \<Rightarrow> readyState s
      | Some w \<Rightarrow> if readyState s w = 1 then (readyState s)(w := 2) else readyState s)"
  by (simp add: cleanup_def Let_def clearTimeout_def ws_close_def split: option.splits)

lemma ref_inv_init: "ref_inv (init env origin)"
  by (simp add: ref_inv_def init_def)

lemma ref_inv_connect: "ref_inv s \<Longrightarrow> ref_inv (connect throws s)"
  by (cases throws)
     (auto simp: ref_inv_def connect_def new_WebSocket_def Let_def setTimeout_def
                 clearTimeout_def split: option.splits prod.splits)

lemma ref_inv_step: "ref_inv s \<Longrightarrow> ref_inv (step e s)"
proof (cases e)
  case (Mount throws)
  assume "ref_inv s"
  then have "ref_inv (s\<lparr>manualCloseRef := False, status := ''connecting''\<rparr>)"
    by (auto simp: ref_inv_def split: option.splits)
  then show ?thesis using Mount by (simp add: mount_def ref_inv_connect)
next
  case Cleanup
  assume "ref_inv s"
  then show ?thesis using Cleanup
    by (auto simp: ref_inv_def cleanup_def Let_def clearTimeout_def ws_close_def
             split: option.splits)
next
  case (TimerFire t throws)
  assume "ref_inv s"
  then have "ref_inv (clearTimeout t s)"
    by (auto simp: ref_inv_def clearTimeout_def split: option.splits)
  then show ?thesis using TimerFire \<open>ref_inv s\<close> by (simp add: ref_inv_connect)
next
  case (WsOpen ws)
  assume "ref_inv s"
  then show ?thesis using WsOpen by (auto simp: ref_inv_def onopen_def split: option.splits)
next
  case (WsMessage ws parsed)
  assume "ref_inv s"
  then show ?thesis using WsMessage by (auto simp: ref_inv_def onmessage_def split: option.splits)
next
  case (WsError ws)
  assume "ref_inv s"
  then show ?thesis using WsError by (auto simp: ref_inv_def onerror_def split: option.splits)
next
  case (WsClose ws rnd)
  then show ?thesis
    by (simp add: ref_inv_def onclose_def Let_def setTimeout_def clearTimeout_def
             split: option.splits prod.splits)
next
  case (SetInput x)
  assume "ref_inv s"
  then show ?thesis using SetInput by (auto simp: ref_inv_def split: option.splits)
next
  case Send
  assume "ref_inv s"
  then show ?thesis using Send
    by (auto simp: ref_inv_def send_def Let_def split: option.splits)
qed

lemma ref_inv_run: "ref_inv s \<Longrightarrow> ref_inv (run evs s)"
  unfolding run_def by (induction evs arbitrary: s) (simp_all add: ref_inv_step)

lemma restart_fields:
  "wsRef (mount False (cleanup s)) = Some (next_ws s)"
  "readyState (mount False (cleanup s)) = (readyState (cleanup s))(next_ws s := 0)"
  "manualCloseRef (mount False (cleanup s)) = False"
  "attempt (mount False (cleanup s)) = attempt s"
  by (simp_all add: mount_def connect_def new_WebSocket_def Let_def cleanup_def clearTimeout_def
                    ws_close_def split: option.splits)

text \<open>
  Claim C2, as the code has it. After the cleanup of the effect in a reachable state, and
  after any further events that are not a new run of the effect, the manual-close flag is set
  and no retry timer is pending, so none can fire; a close event of any socket then changes
  neither status, attempt counter, messages nor timers. The cleanup calls \<^verbatim>\<open>close\<close> on the
  current socket if it is open, and leaves a socket that is still connecting as it is. Once
  the effect has run again after the cleanup, the earlier socket is no longer the current one
  and its events are not ignored: its open event sets the status \<^verbatim>\<open>connected\<close> and the
  counter to 0, its error event sets the status \<^verbatim>\<open>error\<close>, and its close event clears the
  reference to the current socket, sets the status \<^verbatim>\<open>disconnected\<close>, adds 1 to the counter
  and leaves one retry timer pending, with the backoff delay.
\<close>

theorem after_stop:
  assumes "list_all (\<lambda>e. \<not> is_Mount e) evs"
  shows "manualCloseRef (run evs (cleanup (run evs0 (init env origin))))
       \<and> timers (run evs (cleanup (run evs0 (init env origin)))) = []
       \<and> obs (step (WsClose ws rnd) (run evs (cleanup (run evs0 (init env origin)))))
           = obs (run evs (cleanup (run evs0 (init env origin))))
       \<and> (wsRef s = Some w \<and> readyState s w = 1 \<longrightarrow> readyState (cleanup s) = (readyState s)(w := 2))
       \<and> (wsRef s = Some w \<and> readyState s w \<noteq> 1 \<longrightarrow> readyState (cleanup s) = readyState s)
       \<and> (wsRef (run evs0 (init env origin)) = Some w \<longrightarrow>
            wsRef (run [Cleanup, Mount False] (run evs0 (init env origin)))
              = Some (next_ws (run evs0 (init env origin)))
            \<and> w \<noteq> next_ws (run evs0 (init env origin))
            \<and> readyState (run [Cleanup, Mount False] (run evs0 (init env origin))) w
                = readyState (cleanup (run evs0 (init env origin))) w
            \<and> status (step (WsOpen w) (run [Cleanup, Mount False] (run evs0 (init env origin))))
                = ''connected''
            \<and> attempt (step (WsOpen w) (run [Cleanup, Mount False] (run evs0 (init env origin)))) = 0
            \<and> status (step (WsError w) (run [Cleanup, Mount False] (run evs0 (init env origin))))
                = ''error''
            \<and> status (step (WsClose w rnd) (run [Cleanup, Mount False] (run evs0 (init env origin))))
                = ''disconnected''
            \<and> attempt (step (WsClose w rnd) (run [Cleanup, Mount False] (run evs0 (init env origin))))
                = attempt (run evs0 (init env origin)) + 1
            \<and> wsRef (step (WsClose w rnd) (run [Cleanup, Mount False] (run evs0 (init env origin))))
                = None
            \<and> map snd (timers (step (WsClose w rnd)
                                     (run [Cleanup, Mount False] (run evs0 (init env origin)))))
                = [delay (attempt (run evs0 (init env origin))) rnd])"
proof -
  let ?s1 = "run evs0 (init env origin)"
  let ?s' = "run evs (cleanup ?s1)"
  let ?s2 = "run [Cleanup, Mount False] ?s1"
  have "stopped (cleanup ?s1)"
    by (rule stopped_cleanup[OF timer_inv_reachable])
  then have st: "stopped ?s'" using assms by (rule stopped_run)
  then have "manualCloseRef ?s'" by (simp add: stopped_def)
  then have c: "obs (step (WsClose ws rnd) ?s') = obs ?s'"
    by (simp only: obs_close)
  have s2: "?s2 = mount False (cleanup ?s1)" by (simp add: run_def)
  have f: "wsRef ?s2 = Some (next_ws ?s1)"
          "readyState ?s2 = (readyState (cleanup ?s1))(next_ws ?s1 := 0)"
          "\<not> manualCloseRef ?s2" "attempt ?s2 = attempt ?s1"
    by (simp_all only: s2 restart_fields) simp
  have inv2: "timer_inv ?s2" unfolding run_def[of "[Cleanup, Mount False]"]
    using timer_inv_step[OF timer_inv_step[OF timer_inv_reachable[of evs0 env origin], of Cleanup], of "Mount False"]
    by simp
  then have inv2': "timer_inv (?s2\<lparr>readyState := (readyState ?s2)(w := 3)\<rparr>)"
    by (simp add: timer_inv_def)
  have cl: "timers (step (WsClose w rnd) ?s2) = [(next_timer ?s2, delay (attempt ?s1) rnd)]"
    using timers_onclose_inv(1)[OF inv2', of rnd] f(3,4) by simp
  have cl2: "status (step (WsClose w rnd) ?s2) = ''disconnected''
           \<and> attempt (step (WsClose w rnd) ?s2) = attempt ?s1 + 1
           \<and> wsRef (step (WsClose w rnd) ?s2) = None"
    using f(3,4)
    by (simp add: onclose_def Let_def setTimeout_def clearTimeout_def
             split: option.splits prod.splits)
  have op: "status (step (WsOpen w) ?s2) = ''connected'' \<and> attempt (step (WsOpen w) ?s2) = 0
          \<and> status (step (WsError w) ?s2) = ''error''"
    by (simp add: onopen_def onerror_def)
  have r: "w \<noteq> next_ws ?s1 \<and> readyState ?s2 w = readyState (cleanup ?s1) w"
    if "wsRef ?s1 = Some w"
  proof -
    have "ref_inv ?s1" by (rule ref_inv_run[OF ref_inv_init])
    with that have "w < next_ws ?s1" by (simp add: ref_inv_def)
    then show ?thesis by (simp add: f(2))
  qed
  show ?thesis using st c f(1) cl cl2 op r by (simp add: stopped_def readyState_cleanup)
qed

theorem after_stop_witness:
  "list_all (\<lambda>e. \<not> is_Mount e) [WsError 0, WsClose 0 0, TimerFire 1 False]
   \<and> timers (run [WsError 0, WsClose 0 0, TimerFire 1 False]
               (cleanup (run [Mount False, WsOpen 0] (init None ''http://localhost:5173'')))) = []
   \<and> readyState (cleanup (run [Mount False, WsOpen 0] (init None ''http://localhost:5173''))) 0 = 2
   \<and> readyState (cleanup (run [Mount False] (init None ''http://localhost:5173''))) 0 = 0
   \<and> wsRef (run [Mount False] (init None ''http://localhost:5173'')) = Some 0
   \<and> status (step (WsOpen 0) (run [Cleanup, Mount False]
                                 (run [Mount False] (init None ''http://localhost:5173''))))
       = ''connected''
   \<and> attempt (step (WsClose 0 0) (run [Cleanup, Mount False]
                                    (run [Mount False] (init None ''http://localhost:5173'')))) = 1"
proof -
  let ?i = "init None ''http://localhost:5173''"
  have a: "list_all (\<lambda>e. \<not> is_Mount e) [WsError 0, WsClose 0 0, TimerFire 1 False]" by simp
  have b: "wsRef (run [Mount False, WsOpen 0] ?i) = Some 0 \<and> readyState (run [Mount False, WsOpen 0] ?i) 0 = 1"
    by (simp add: run_def init_def mount_def connect_def new_WebSocket_def onopen_def)
  have c: "wsRef (run [Mount False] ?i) = Some 0 \<and> readyState (run [Mount False] ?i) 0 = 0
         \<and> attempt (run [Mount False] ?i) = 0"
    by (simp add: run_def init_def mount_def connect_def new_WebSocket_def)
  show ?thesis
    using after_stop[OF a, of "[Mount False, WsOpen 0]" None "''http://localhost:5173''" 0 0
                     "run [Mount False, WsOpen 0] ?i" 0]
          after_stop[OF a, of "[Mount False]" None "''http://localhost:5173''" 0 0
                     "run [Mount False] ?i" 0] a b c
    by simp
qed

text \<open>
  Claim C2 as stated fails when the effect runs again, as it does right after its first
  run in strict mode. The effect runs and is cleaned up at once, before socket 0 has opened,
  so that the socket is not closed; the effect runs again and socket 1 is current. The open
  event of socket 0 then publishes the status \<^verbatim>\<open>connected\<close>, and its close event publishes
  \<^verbatim>\<open>disconnected\<close>, increments the counter and sets a retry timer of 500 ms.
\<close>

theorem after_stop_counterexample:
  "wsRef (run [Mount False, Cleanup, Mount False] (init None ''http://localhost:5173'')) = Some 1
   \<and> readyState (run [Mount False, Cleanup, Mount False] (init None ''http://localhost:5173'')) 0 = 0
   \<and> status (run [Mount False, Cleanup, Mount False] (init None ''http://localhost:5173''))
       = ''connecting''
   \<and> status (run [Mount False, Cleanup, Mount False, WsOpen 0] (init None ''http://localhost:5173''))
       = ''connected''
   \<and> status (run [Mount False, Cleanup, Mount False, WsClose 0 0] (init None ''http://localhost:5173''))
       = ''disconnected''
   \<and> attempt (run [Mount False, Cleanup, Mount False, WsClose 0 0] (init None ''http://localhost:5173''))
       = 1
   \<and> map snd (timers (run [Mount False, Cleanup, Mount False, WsClose 0 0]
                          (init None ''http://localhost:5173''))) = [500]"
  by (simp add: run_def init_def mount_def connect_def new_WebSocket_def cleanup_def onopen_def
                onclose_def Let_def setTimeout_def delay_def baseDelay_def jitter_def)

end
